theory Spec2Isabelle
  imports Complex_Main
begin

section \<open>MacBook Power Monitor: a model of power_monitor.py\<close>

text \<open>
  The program is one Python file: six data collection functions that run an operating
  system tool and parse its text, the progress bar \<open>make_bar\<close>, and the curses loop
  \<open>draw_dashboard\<close> that refreshes the samples every ten seconds and draws them.

  Conventions of the model.
  \<^item> A Python \<open>str\<close> is a list of code points (\<open>pystr\<close>); \<open>str ''abc''\<close> writes an
    ASCII literal. Digits and letter case are given for the ASCII range, which is what
    the queried tools print.
  \<^item> A Python \<open>int\<close> is an \<open>int\<close>. A Python \<open>float\<close> is a binary64 value (\<open>pyfloat\<close>)
    in the battery health, the charging block and the power balance, with the rounding,
    the infinities and the \<open>OverflowError\<close> of each operation. In \<open>make_bar\<close>,
    \<open>get_memory_info\<close> and the discharging block it is idealised as a \<open>real\<close>.
  \<^item> An exception is a value: a function that can raise returns \<open>py_error + 'a\<close>.
  \<^item> A dict with fixed keys is a record; the \<open>pages\<close> dict of \<open>get_memory_info\<close> is a map.
\<close>

subsection \<open>Text\<close>

type_synonym pystr = "nat list"

definition str :: "string \<Rightarrow> pystr" where
  "str cs = map of_char cs"

text \<open>\<open>s * n\<close> on a string: the empty string when \<open>n \<le> 0\<close>.\<close>

definition repeat :: "'a list \<Rightarrow> int \<Rightarrow> 'a list" where
  "repeat s n = concat (replicate (nat n) s)"

text \<open>\<open>str.isspace\<close> and the class \<open>\s\<close> of \<open>re\<close> on a str pattern.\<close>

definition is_space :: "nat \<Rightarrow> bool" where
  "is_space c \<longleftrightarrow>
     (9 \<le> c \<and> c \<le> 13) \<or> (28 \<le> c \<and> c \<le> 32) \<or> c = 133 \<or> c = 160 \<or> c = 5760 \<or>
     (8192 \<le> c \<and> c \<le> 8202) \<or> c = 8232 \<or> c = 8233 \<or> c = 8239 \<or> c = 8287 \<or>
     c = 12288"

text \<open>\<open>\d\<close> and \<open>str.isdigit\<close>, on ASCII.\<close>

definition is_digit :: "nat \<Rightarrow> bool" where
  "is_digit c \<longleftrightarrow> 48 \<le> c \<and> c \<le> 57"

text \<open>\<open>str.lower\<close>, on ASCII: \<open>A\<close> .. \<open>Z\<close> become \<open>a\<close> .. \<open>z\<close>.\<close>

definition lower :: "pystr \<Rightarrow> pystr" where
  "lower s = map (\<lambda>c. if 65 \<le> c \<and> c \<le> 90 then c + 32 else c) s"

text \<open>\<open>s.startswith(p)\<close>.\<close>

fun startswith :: "'a list \<Rightarrow> 'a list \<Rightarrow> bool" where
  "startswith s [] = True"
| "startswith [] (p # ps) = False"
| "startswith (c # cs) (p # ps) = (c = p \<and> startswith cs ps)"

text \<open>\<open>needle in s\<close> on strings: \<open>needle\<close> occurs in \<open>s\<close> as a contiguous run.\<close>

fun is_in :: "'a list \<Rightarrow> 'a list \<Rightarrow> bool" where
  "is_in needle [] = (needle = [])"
| "is_in needle (c # cs) = (startswith (c # cs) needle \<or> is_in needle cs)"

definition strip :: "pystr \<Rightarrow> pystr" where
  "strip s = rev (dropWhile is_space (rev (dropWhile is_space s)))"

definition isdigit :: "pystr \<Rightarrow> bool" where
  "isdigit s \<longleftrightarrow> s \<noteq> [] \<and> list_all is_digit s"

text \<open>\<open>int(s)\<close> on a string of decimal digits.\<close>

definition int_of :: "pystr \<Rightarrow> int" where
  "int_of s = foldl (\<lambda>a c. 10 * a + (int c - 48)) 0 s"

text \<open>\<open>s.split('\n')\<close>: one more piece than there are newlines.\<close>

fun split_nl :: "pystr \<Rightarrow> pystr list" where
  "split_nl [] = [[]]"
| "split_nl (c # cs) =
     (if c = 10 then [] # split_nl cs
      else (case split_nl cs of [] \<Rightarrow> [[c]] | l # ls \<Rightarrow> (c # l) # ls))"

subsection \<open>Numbers and their formats\<close>

datatype py_error = ZeroDivisionError | TypeError | ValueError | OverflowError

text \<open>\<open>a / b\<close>: true division raises on a zero divisor.\<close>

definition truediv :: "real \<Rightarrow> real \<Rightarrow> py_error + real" where
  "truediv a b = (if b = 0 then Inl ZeroDivisionError else Inr (a / b))"

text \<open>\<open>int(x)\<close> on a float truncates towards zero.\<close>

definition py_int :: "real \<Rightarrow> int" where
  "py_int x = (if 0 \<le> x then \<lfloor>x\<rfloor> else \<lceil>x\<rceil>)"

fun digits :: "nat \<Rightarrow> pystr" where
  "digits n = (if n < 10 then [48 + n] else digits (n div 10) @ [48 + n mod 10])"

declare digits.simps [simp del]

text \<open>\<open>f"{i}"\<close> and \<open>f"{i:02d}"\<close> for an int.\<close>

definition fmt_d :: "int \<Rightarrow> pystr" where
  "fmt_d i = (if i < 0 then 45 # digits (nat (- i)) else digits (nat i))"

definition fmt_02d :: "int \<Rightarrow> pystr" where
  "fmt_02d i = (let s = fmt_d i in replicate (2 - length s) 48 @ s)"

text \<open>
  \<open>f"{x:.df}"\<close>: \<open>d\<close> decimals, the last one rounded half to even, the sign of a negative
  value kept also when it rounds to zero.
\<close>

definition round_half_even :: "real \<Rightarrow> int" where
  "round_half_even x =
     (let f = \<lfloor>x\<rfloor>; r = x - of_int f
      in if r < 1 / 2 then f else if 1 / 2 < r then f + 1
         else if even f then f else f + 1)"

definition fmt_f :: "nat \<Rightarrow> real \<Rightarrow> pystr" where
  "fmt_f d x =
     (let q = nat (round_half_even (\<bar>x\<bar> * 10 ^ d));
          ip = digits (q div 10 ^ d);
          fp = digits (q mod 10 ^ d)
      in (if x < 0 then [45] else []) @ ip @
         (if d = 0 then [] else 46 # replicate (d - length fp) 48 @ fp))"

text \<open>
  The binary64 value nearest to a real: 53 significant bits, ties to even, the exponent
  not below -1022 (the subnormal numbers lie there) and not bounded above. This is what
  a float operation returns for the exact result \<open>x\<close>, unless it overflows.
\<close>

definition binary64 :: "real \<Rightarrow> real" where
  "binary64 x =
     (if x = 0 then 0
      else (let e = max \<lfloor>log 2 \<bar>x\<bar>\<rfloor> (- 1022); ulp = 2 powr (of_int e - 52)
            in sgn x * of_int (round_half_even (\<bar>x\<bar> / ulp)) * ulp))"

subsection \<open>Floats\<close>

text \<open>
  In the battery health, the charging block and the power balance a float is a binary64
  value: a finite number (\<open>Fin 0\<close> is \<open>0.0\<close>), the negative zero, an infinity, or NaN.
  An operation returns the float nearest to its exact result.
\<close>

datatype pyfloat = Fin real | NegZero | PInf | NInf | NaN

text \<open>
  The nearest value of 53 bits lies beyond the largest float, \<open>2 ^ 1024 - 2 ^ 971\<close>.
\<close>

definition overflows :: "real \<Rightarrow> bool" where
  "overflows x \<longleftrightarrow> 2 ^ 1024 \<le> \<bar>binary64 x\<bar>"

text \<open>
  The float for the exact result \<open>x\<close> of an operation on floats: an infinity when it
  overflows, a zero of the sign of \<open>x\<close> when it underflows.
\<close>

definition fl :: "real \<Rightarrow> pyfloat" where
  "fl x =
     (if overflows x then (if 0 < x then PInf else NInf)
      else if binary64 x = 0 \<and> x < 0 then NegZero
      else Fin (binary64 x))"

text \<open>
  \<open>a / b\<close> on two ints: the quotient, correctly rounded. It raises on a zero divisor, and
  \<open>OverflowError\<close> when the quotient is too large for a float; \<open>0 / b\<close> is \<open>-0.0\<close> for a
  negative \<open>b\<close>.
\<close>

definition int_truediv :: "int \<Rightarrow> int \<Rightarrow> py_error + pyfloat" where
  "int_truediv a b =
     (if b = 0 then Inl ZeroDivisionError
      else if overflows (real_of_int a / real_of_int b) then Inl OverflowError
      else if a = 0 \<and> b < 0 then Inr NegZero
      else Inr (fl (real_of_int a / real_of_int b)))"

text \<open>
  An int operand of a float operation is converted to a float first, which raises
  \<open>OverflowError\<close> when the int is too large.
\<close>

definition float_of_int :: "int \<Rightarrow> py_error + pyfloat" where
  "float_of_int n =
     (if overflows (real_of_int n) then Inl OverflowError else Inr (fl (real_of_int n)))"

text \<open>The sign bit, the two zeros, the two infinities, and the value of a finite float.\<close>

definition sign_bit :: "pyfloat \<Rightarrow> bool" where
  "sign_bit a =
     (case a of Fin x \<Rightarrow> x < 0 | NegZero \<Rightarrow> True | PInf \<Rightarrow> False | NInf \<Rightarrow> True
      | NaN \<Rightarrow> False)"

definition is_zero :: "pyfloat \<Rightarrow> bool" where
  "is_zero a \<longleftrightarrow> a = Fin 0 \<or> a = NegZero"

definition is_inf :: "pyfloat \<Rightarrow> bool" where
  "is_inf a \<longleftrightarrow> a = PInf \<or> a = NInf"

definition fval :: "pyfloat \<Rightarrow> real" where
  "fval a = (case a of Fin x \<Rightarrow> x | _ \<Rightarrow> 0)"

definition zero_of :: "bool \<Rightarrow> pyfloat" where
  "zero_of negative = (if negative then NegZero else Fin 0)"

definition inf_of :: "bool \<Rightarrow> pyfloat" where
  "inf_of negative = (if negative then NInf else PInf)"


definition fadd :: "pyfloat \<Rightarrow> pyfloat \<Rightarrow> pyfloat" where
  "fadd a b =
     (if a = NaN \<or> b = NaN \<or> (a = PInf \<and> b = NInf) \<or> (a = NInf \<and> b = PInf) then NaN
      else if is_inf a then a
      else if is_inf b then b
      else if a = NegZero \<and> b = NegZero then NegZero
      else fl (fval a + fval b))"


definition fmul :: "pyfloat \<Rightarrow> pyfloat \<Rightarrow> pyfloat" where
  "fmul a b =
     (if a = NaN \<or> b = NaN \<or> (is_zero a \<and> is_inf b) \<or> (is_inf a \<and> is_zero b) then NaN
      else if is_inf a \<or> is_inf b then inf_of (sign_bit a \<noteq> sign_bit b)
      else if is_zero a \<or> is_zero b then zero_of (sign_bit a \<noteq> sign_bit b)
      else fl (fval a * fval b))"

definition fdiv :: "pyfloat \<Rightarrow> pyfloat \<Rightarrow> py_error + pyfloat" where
  "fdiv a b =
     (if is_zero b then Inl ZeroDivisionError
      else Inr (if a = NaN \<or> b = NaN \<or> (is_inf a \<and> is_inf b) then NaN
                else if is_inf a then inf_of (sign_bit a \<noteq> sign_bit b)
                else if is_inf b \<or> is_zero a then zero_of (sign_bit a \<noteq> sign_bit b)
                else fl (fval a / fval b)))"

text \<open>
  \<open>a < c\<close>, \<open>a > c\<close> and \<open>a >= c\<close> for a float \<open>a\<close> and an int \<open>c\<close>: false for NaN.
\<close>

definition flt :: "pyfloat \<Rightarrow> real \<Rightarrow> bool" where
  "flt a c =
     (case a of Fin x \<Rightarrow> x < c | NegZero \<Rightarrow> 0 < c | PInf \<Rightarrow> False | NInf \<Rightarrow> True
      | NaN \<Rightarrow> False)"



text \<open>\<open>min(c, a)\<close> for an int \<open>c\<close>: \<open>a\<close> when \<open>a < c\<close>, and \<open>c\<close> otherwise.\<close>

definition py_min :: "real \<Rightarrow> pyfloat \<Rightarrow> pyfloat" where
  "py_min c a = (if flt a c then a else Fin c)"

text \<open>\<open>int(a)\<close> on a float raises for an infinity and for NaN.\<close>

definition float_int :: "pyfloat \<Rightarrow> py_error + int" where
  "float_int a =
     (case a of Fin x \<Rightarrow> Inr (py_int x) | NegZero \<Rightarrow> Inr 0 | PInf \<Rightarrow> Inl OverflowError
      | NInf \<Rightarrow> Inl OverflowError | NaN \<Rightarrow> Inl ValueError)"

text \<open>\<open>f"{a:.df}"\<close> on a float.\<close>

definition fmt_float :: "nat \<Rightarrow> pyfloat \<Rightarrow> pystr" where
  "fmt_float d a =
     (case a of Fin x \<Rightarrow> fmt_f d x | NegZero \<Rightarrow> 45 # fmt_f d 0 | PInf \<Rightarrow> str ''inf''
      | NInf \<Rightarrow> str ''-inf'' | NaN \<Rightarrow> str ''nan'')"

text \<open>A computation that can raise, and what is done with its value.\<close>

definition and_then :: "py_error + 'a \<Rightarrow> ('a \<Rightarrow> py_error + 'b) \<Rightarrow> py_error + 'b" where
  "and_then r f = (case r of Inl e \<Rightarrow> Inl e | Inr x \<Rightarrow> f x)"

subsection \<open>The progress bar (make_bar)\<close>

text \<open>
  \<open>fill\<close> and \<open>empty\<close> are strings; their defaults are the two block glyphs below.
  \<open>filled\<close> is the local variable of that name.
\<close>

definition filled :: "real \<Rightarrow> int \<Rightarrow> int" where
  "filled pct width = py_int (of_int width * max 0 (min 100 pct) / 100)"

definition make_bar :: "real \<Rightarrow> int \<Rightarrow> 'a list \<Rightarrow> 'a list \<Rightarrow> 'a list" where
  "make_bar pct width fill empty' =
     repeat fill (filled pct width) @ repeat empty' (width - filled pct width)"

definition FULL_BLOCK :: pystr where
  "FULL_BLOCK = [9608]"

definition LIGHT_SHADE :: pystr where
  "LIGHT_SHADE = [9617]"

subsection \<open>Running a command (run_cmd)\<close>

text \<open>
  What \<open>subprocess.run\<close> does with the command: it completes with a return code and
  the captured stdout, or the five second timeout expires, or something else is raised.
  \<open>run_cmd\<close> returns the stdout whatever the return code is, and the empty string
  otherwise.
\<close>

datatype proc = Completed int pystr | TimeoutExpired | OtherException

definition run_cmd :: "proc \<Rightarrow> pystr" where
  "run_cmd r = (case r of Completed rc out \<Rightarrow> out | TimeoutExpired \<Rightarrow> [] | OtherException \<Rightarrow> [])"

text \<open>
  \<open>re.search\<close>: the pattern is tried at every position, from the left; \<open>m\<close> is the
  pattern anchored at the start of its argument.
\<close>

fun re_search :: "(pystr \<Rightarrow> 'a option) \<Rightarrow> pystr \<Rightarrow> 'a option" where
  "re_search m [] = m []"
| "re_search m (c # cs) = (case m (c # cs) of Some r \<Rightarrow> Some r | None \<Rightarrow> re_search m cs)"

subsection \<open>Battery status (parse_pmset)\<close>

record pmset_info =
  percentage :: int
  status :: pystr
  time_remaining :: pystr

text \<open>The pattern \<open>(\d+)%\<close> at the start of \<open>s\<close>: group 1 as an int.\<close>

definition percent_at :: "pystr \<Rightarrow> int option" where
  "percent_at s =
     (let ds = takeWhile is_digit s
      in if ds \<noteq> [] \<and> startswith (dropWhile is_digit s) (str ''%'')
         then Some (int_of ds) else None)"

text \<open>The pattern \<open>(\d+:\d+)\s*remaining\<close> at the start of \<open>s\<close>: group 1.\<close>

definition remaining_at :: "pystr \<Rightarrow> pystr option" where
  "remaining_at s =
     (let d1 = takeWhile is_digit s
      in case dropWhile is_digit s of
           [] \<Rightarrow> None
         | c # r \<Rightarrow>
             (let d2 = takeWhile is_digit r
              in if d1 \<noteq> [] \<and> c = 58 \<and> d2 \<noteq> [] \<and>
                    startswith (dropWhile is_space (dropWhile is_digit r)) (str ''remaining'')
                 then Some (d1 @ [58] @ d2) else None))"

text \<open>The status, from the text of the output (the if/elif chain of parse_pmset).\<close>

definition pmset_status :: "pystr \<Rightarrow> pystr" where
  "pmset_status output =
     (if is_in (str ''charging'') (lower output) \<and>
         \<not> is_in (str ''discharging'') (lower output) then str ''Charging''
      else if is_in (str ''discharging'') (lower output) then str ''Discharging''
      else if is_in (str ''charged'') (lower output) then str ''Fully Charged''
      else if is_in (str ''AC Power'') output then str ''On AC''
      else str ''Unknown'')"

text \<open>The argument is what running \<open>pmset -g batt\<close> does.\<close>

definition parse_pmset :: "proc \<Rightarrow> pmset_info" where
  "parse_pmset r =
     (let output = run_cmd r
      in \<lparr>percentage = (case re_search percent_at output of Some n \<Rightarrow> n | None \<Rightarrow> 0),
          status = pmset_status output,
          time_remaining =
            (case re_search remaining_at output of Some t \<Rightarrow> t | None \<Rightarrow> str ''N/A'')\<rparr>)"

subsection \<open>Thermal throttling (parse_thermal)\<close>

record thermal_info =
  cpu_speed_limit :: int

text \<open>The pattern \<open>CPU_Speed_Limit\s*=\s*(\d+)\<close> at the start of \<open>s\<close>: group 1 as an int.\<close>

definition speed_limit_at :: "pystr \<Rightarrow> int option" where
  "speed_limit_at s =
     (if startswith s (str ''CPU_Speed_Limit'') then
        (case dropWhile is_space (drop 15 s) of
           [] \<Rightarrow> None
         | c # r \<Rightarrow>
             (let ds = takeWhile is_digit (dropWhile is_space r)
              in if c = 61 \<and> ds \<noteq> [] then Some (int_of ds) else None))
      else None)"

text \<open>The argument is what running \<open>pmset -g therm\<close> does.\<close>

definition parse_thermal :: "proc \<Rightarrow> thermal_info" where
  "parse_thermal r =
     (let output = run_cmd r
      in \<lparr>cpu_speed_limit =
            (case re_search speed_limit_at output of Some n \<Rightarrow> n | None \<Rightarrow> 100)\<rparr>)"

subsection \<open>Memory (get_memory_info)\<close>

record memory_info =
  total_gb :: real
  app_gb :: real
  wired_gb :: real
  compressed_gb :: real
  cached_gb :: real
  free_gb :: real
  purgeable_gb :: real
  used_pct :: real

text \<open>
  \<open>re.match(r'(.+):\s+(\d+)', line)\<close>. \<open>page_tail\<close> is \<open>\s+(\d+)\<close> right after the
  colon. \<open>page_line pre s\<close> has read \<open>pre\<close> into group 1 and looks for the colon in
  \<open>s\<close>: \<open>.+\<close> is greedy, so the last colon followed by blanks and digits is the one
  taken, and \<open>.\<close> does not match a newline.
\<close>

definition page_tail :: "pystr \<Rightarrow> int option" where
  "page_tail r =
     (let ds = takeWhile is_digit (dropWhile is_space r)
      in if takeWhile is_space r \<noteq> [] \<and> ds \<noteq> [] then Some (int_of ds) else None)"

fun page_line :: "pystr \<Rightarrow> pystr \<Rightarrow> (pystr \<times> int) option" where
  "page_line pre [] = None"
| "page_line pre (c # cs) =
     (if c = 10 then None
      else (case page_line (pre @ [c]) cs of
              Some r \<Rightarrow> Some r
            | None \<Rightarrow>
                (if c = 58 \<and> pre \<noteq> [] then map_option (Pair pre) (page_tail cs)
                 else None)))"

text \<open>The \<open>pages\<close> dict: a later line with the same name overwrites an earlier one.\<close>

definition vm_pages :: "pystr \<Rightarrow> (pystr \<rightharpoonup> int)" where
  "vm_pages output =
     foldl (\<lambda>pages line.
              case page_line [] line of
                Some (k, v) \<Rightarrow> pages(strip k \<mapsto> v)
              | None \<Rightarrow> pages)
       Map.empty (split_nl output)"

text \<open>\<open>pages.get(k, d)\<close>.\<close>

definition dict_get :: "('k \<rightharpoonup> 'v) \<Rightarrow> 'k \<Rightarrow> 'v \<Rightarrow> 'v" where
  "dict_get m k d = (case m k of Some v \<Rightarrow> v | None \<Rightarrow> d)"

text \<open>
  The arguments are what running \<open>sysctl -n hw.memsize\<close>, \<open>vm_stat\<close> and
  \<open>pagesize\<close> does. The one division by a variable is the last entry of the returned
  dict, \<open>used_pct\<close>.
\<close>

definition get_memory_info :: "proc \<Rightarrow> proc \<Rightarrow> proc \<Rightarrow> py_error + memory_info" where
  "get_memory_info sysctl vm_stat pagesize =
     (let output = run_cmd sysctl;
          total_bytes =
            (if isdigit (strip output) then int_of (strip output) else 16 * 1024 ^ 3);
          total = real_of_int total_bytes / 1024 ^ 3;
          pages = vm_pages (run_cmd vm_stat);
          page_size_output = run_cmd pagesize;
          page_size =
            (if isdigit (strip page_size_output) then int_of (strip page_size_output)
             else 16384);
          free = dict_get pages (str ''Pages free'') 0 * page_size;
          active = dict_get pages (str ''Pages active'') 0 * page_size;
          inactive = dict_get pages (str ''Pages inactive'') 0 * page_size;
          speculative = dict_get pages (str ''Pages speculative'') 0 * page_size;
          wired = dict_get pages (str ''Pages wired down'') 0 * page_size;
          compressed = dict_get pages (str ''Pages occupied by compressor'') 0 * page_size;
          purgeable = dict_get pages (str ''Pages purgeable'') 0 * page_size;
          app_memory = active + wired;
          cached = inactive + purgeable + speculative
      in case truediv (real_of_int (app_memory + compressed)) (real_of_int total_bytes) of
           Inl e \<Rightarrow> Inl e
         | Inr q \<Rightarrow>
             Inr \<lparr>total_gb = total,
                  app_gb = real_of_int app_memory / 1024 ^ 3,
                  wired_gb = real_of_int wired / 1024 ^ 3,
                  compressed_gb = real_of_int compressed / 1024 ^ 3,
                  cached_gb = real_of_int cached / 1024 ^ 3,
                  free_gb = real_of_int free / 1024 ^ 3,
                  purgeable_gb = real_of_int purgeable / 1024 ^ 3,
                  used_pct = q * 100\<rparr>)"

subsection \<open>The other samples\<close>

text \<open>The dict that parse_ioreg_battery returns; capacities in mAh, the rest as named.\<close>

record battery_info =
  current_capacity_mah :: int
  max_capacity_mah :: int
  design_capacity_mah :: int
  voltage_mv :: int
  amperage_ma :: int
  is_charging :: bool
  external_connected :: bool
  cycle_count :: int
  adapter_watts :: int
  adapter_voltage_mv :: int
  adapter_current_ma :: int
  system_power_mw :: int
  charging_current_ma :: int
  charging_voltage_mv :: int
  cell_voltages :: "int list"

text \<open>The dict that get_disk_info returns.\<close>

record disk_info =
  disk_total_gb :: real
  disk_used_gb :: real
  disk_available_gb :: real
  disk_used_pct :: int
  disk_purgeable_gb :: real

subsection \<open>What is written to the screen\<close>

text \<open>
  \<open>stdscr.addstr(row, col, text, attr)\<close> is recorded as a value; the attribute is a
  colour pair, or a colour pair with \<open>BOLD\<close>. The window is taken to be large enough
  for what is written.
\<close>

datatype color = GREEN | YELLOW | RED | CYAN | WHITE

datatype attr = Plain color | Bold color

datatype draw = Addstr int int pystr attr


subsection \<open>Battery health (draw_dashboard, the battery section)\<close>




subsection \<open>Charging and discharging (draw_dashboard, the charging/discharging section)\<close>

text \<open>
  The titles start with a symbol outside ASCII: HIGH VOLTAGE SIGN, ELECTRIC PLUG and
  BAR CHART.
\<close>

definition CHARGING_TITLE :: pystr where
  "CHARGING_TITLE = 9889 # str '' CHARGING''"

definition DISCHARGING_TITLE :: pystr where
  "DISCHARGING_TITLE = 128268 # str '' DISCHARGING''"


text \<open>
  \<open>mins = int(hours * 60); h, m = divmod(mins, 60)\<close> and the text \<open>f"{h}h {m:02d}m"\<close>.
\<close>

definition hours_minutes :: "real \<Rightarrow> int \<times> int" where
  "hours_minutes hours = (let mins = py_int (hours * 60) in (mins div 60, mins mod 60))"

definition hm_text :: "int \<times> int \<Rightarrow> pystr" where
  "hm_text hm = fmt_d (fst hm) @ str ''h '' @ fmt_02d (snd hm) @ str ''m''"

text \<open>
  The local variables of the charging branch, as functions of the battery sample, in
  binary64.
\<close>

definition charge_power :: "battery_info \<Rightarrow> py_error + pyfloat" where
  "charge_power battery =
     int_truediv (charging_current_ma battery * voltage_mv battery) 1000000"

definition remaining_mah :: "battery_info \<Rightarrow> int" where
  "remaining_mah battery = max_capacity_mah battery - current_capacity_mah battery"

definition hours_to_full :: "battery_info \<Rightarrow> py_error + pyfloat" where
  "hours_to_full battery =
     int_truediv (remaining_mah battery) (charging_current_ma battery)"

text \<open>\<open>mins = int(hours * 60); h, m = divmod(mins, 60)\<close> on a float.\<close>

definition divmod_minutes :: "pyfloat \<Rightarrow> py_error + int \<times> int" where
  "divmod_minutes hours =
     and_then (float_int (fmul hours (Fin 60))) (\<lambda>mins. Inr (mins div 60, mins mod 60))"

text \<open>
  The local variables of the discharging branch, in exact arithmetic; the float
  operations of its scenario are rounded to binary64 further down.
\<close>

definition discharge_ma :: "battery_info \<Rightarrow> int" where
  "discharge_ma battery = \<bar>amperage_ma battery\<bar>"

definition discharge_power :: "battery_info \<Rightarrow> real" where
  "discharge_power battery =
     real_of_int (discharge_ma battery * voltage_mv battery) / 1000000"

definition charging_power_row :: "battery_info \<Rightarrow> int \<Rightarrow> py_error + draw" where
  "charging_power_row battery row =
     and_then (charge_power battery) (\<lambda>w.
     and_then (int_truediv (charging_current_ma battery) 1000) (\<lambda>a.
     and_then (int_truediv (charging_voltage_mv battery) 1000) (\<lambda>v.
       Inr (Addstr row 2
              (str ''Power:          '' @ fmt_float 1 w @ str ''W ('' @
               fmt_float 2 a @ str ''A @ '' @ fmt_float 2 v @ str ''V)'')
              (Plain WHITE)))))"

definition discharging_power_row :: "battery_info \<Rightarrow> int \<Rightarrow> draw" where
  "discharging_power_row battery row =
     Addstr row 2
       (str ''Power:          '' @ fmt_f 1 (discharge_power battery) @ str ''W ('' @
        fmt_f 2 (real_of_int (discharge_ma battery) / 1000) @ str ''A)'')
       (Plain WHITE)"

text \<open>
  The two branches, starting at \<open>row\<close>: what each writes. The time row is written only
  under its guard, and there is no \<open>else\<close>.
\<close>

definition charging_block :: "battery_info \<Rightarrow> int \<Rightarrow> py_error + draw list" where
  "charging_block battery row =
     and_then (charging_power_row battery (row + 1)) (\<lambda>power_row.
       if charging_current_ma battery > 0 then
         and_then (hours_to_full battery) (\<lambda>hours.
         and_then (divmod_minutes hours) (\<lambda>hm.
           Inr [Addstr row 0 CHARGING_TITLE (Bold GREEN),
                power_row,
                Addstr (row + 2) 2 (str ''Time to Full:   '' @ hm_text hm)
                  (Plain GREEN)]))
       else
         Inr [Addstr row 0 CHARGING_TITLE (Bold GREEN), power_row])"

definition discharging_block :: "battery_info \<Rightarrow> int \<Rightarrow> py_error + draw list" where
  "discharging_block battery row =
     (if discharge_ma battery > 0 then
        (case truediv (real_of_int (current_capacity_mah battery))
                (real_of_int (discharge_ma battery)) of
           Inl e \<Rightarrow> Inl e
         | Inr hours \<Rightarrow>
             Inr [Addstr row 0 DISCHARGING_TITLE (Bold YELLOW),
                  discharging_power_row battery (row + 1),
                  Addstr (row + 2) 2
                    (str ''Time to Empty:  '' @ hm_text (hours_minutes hours))
                    (Plain YELLOW)])
      else
        Inr [Addstr row 0 DISCHARGING_TITLE (Bold YELLOW),
             discharging_power_row battery (row + 1)])"

text \<open>
  The section: the charging block when the battery is charging, the discharging block
  when it is not and no external power is connected, nothing otherwise. The result is
  what it writes and the row after it: a block moves \<open>row\<close> by two, and the section by
  two more.
\<close>

definition charge_section :: "battery_info \<Rightarrow> int \<Rightarrow> py_error + draw list \<times> int" where
  "charge_section battery row =
     (if is_charging battery then
        (case charging_block battery row of
           Inl e \<Rightarrow> Inl e
         | Inr ops \<Rightarrow> Inr (ops, row + 4))
      else if \<not> external_connected battery then
        (case discharging_block battery row of
           Inl e \<Rightarrow> Inl e
         | Inr ops \<Rightarrow> Inr (ops, row + 4))
      else Inr ([], row + 2))"

subsection \<open>Power balance (draw_dashboard, the power balance section)\<close>

text \<open>
  The local variables of the section, in binary64. \<open>system_w\<close> is computed in the system
  section above it; \<open>charge\<close> is the int 0 when the battery is not charging; the int
  \<open>adapter_max\<close> is converted where it meets a float.
\<close>

definition system_w :: "battery_info \<Rightarrow> py_error + pyfloat" where
  "system_w battery = int_truediv (system_power_mw battery) 1000"

definition charge :: "battery_info \<Rightarrow> py_error + pyfloat" where
  "charge battery = (if is_charging battery then charge_power battery else Inr (Fin 0))"

definition total :: "battery_info \<Rightarrow> py_error + pyfloat" where
  "total battery =
     and_then (system_w battery) (\<lambda>s.
     and_then (charge battery) (\<lambda>c. Inr (fadd s c)))"


definition pct :: "battery_info \<Rightarrow> py_error + pyfloat" where
  "pct battery =
     (if adapter_watts battery > 0 then
        and_then (total battery) (\<lambda>t.
        and_then (float_of_int (adapter_watts battery)) (\<lambda>a.
        and_then (fdiv t a) (\<lambda>q. Inr (py_min 100 (fmul q (Fin 100))))))
      else Inr (Fin 0))"







subsection \<open>The loop of draw_dashboard\<close>

text \<open>
  The state of the loop is its local variables: the time of the last refresh and the six
  samples, five of them \<open>None\<close> and \<open>cpu = 0\<close> before the first refresh.
\<close>

record dashboard =
  last_update :: real
  battery :: "battery_info option"
  pmset :: "pmset_info option"
  thermal :: "thermal_info option"
  cpu :: real
  memory :: "memory_info option"
  disk :: "disk_info option"

definition initial :: dashboard where
  "initial =
     \<lparr>last_update = 0, battery = None, pmset = None, thermal = None, cpu = 0,
      memory = None, disk = None\<rparr>"

definition update_interval :: real where
  "update_interval = 10"

datatype provider =
  ParseIoregBattery | ParsePmset | ParseThermal | GetCpuUsage | GetMemoryInfo | GetDiskInfo

definition all_providers :: "provider list" where
  "all_providers =
     [ParseIoregBattery, ParsePmset, ParseThermal, GetCpuUsage, GetMemoryInfo, GetDiskInfo]"

text \<open>
  What one pass of the loop meets: the clock and the key at its top, and, should it
  refresh, what each of the six calls does (it returns its sample, or it raises, as
  \<open>get_memory_info\<close> above can) and how many seconds the call takes.
\<close>

record tick_input =
  time_time :: real
  getch :: int
  ret_battery :: "py_error + battery_info"
  ret_pmset :: "py_error + pmset_info"
  ret_thermal :: "py_error + thermal_info"
  ret_cpu :: "py_error + real"
  ret_memory :: "py_error + memory_info"
  ret_disk :: "py_error + disk_info"
  took :: "provider \<Rightarrow> real"

text \<open>The calls of a refresh, in the order made, each with the time at which it returns.\<close>

definition refresh_calls :: "tick_input \<Rightarrow> (provider \<times> real) list" where
  "refresh_calls i =
     (let t1 = time_time i + took i ParseIoregBattery;
          t2 = t1 + took i ParsePmset;
          t3 = t2 + took i ParseThermal;
          t4 = t3 + took i GetCpuUsage;
          t5 = t4 + took i GetMemoryInfo;
          t6 = t5 + took i GetDiskInfo
      in [(ParseIoregBattery, t1), (ParsePmset, t2), (ParseThermal, t3),
          (GetCpuUsage, t4), (GetMemoryInfo, t5), (GetDiskInfo, t6)])"

text \<open>
  The refresh block: six calls, each assigned as it returns, then \<open>last_update\<close>. An
  exception of a call is not caught: it leaves \<open>draw_dashboard\<close>, and with it the loop
  and its variables. The result is the calls made and either the provider that raised,
  with its exception, or the state after the block.
\<close>

definition refresh ::
  "tick_input \<Rightarrow> dashboard \<Rightarrow> (provider \<times> real) list \<times> (provider \<times> py_error + dashboard)" where
  "refresh i st =
     (case ret_battery i of
        Inl e \<Rightarrow> (take 1 (refresh_calls i), Inl (ParseIoregBattery, e))
      | Inr b \<Rightarrow>
     (case ret_pmset i of
        Inl e \<Rightarrow> (take 2 (refresh_calls i), Inl (ParsePmset, e))
      | Inr p \<Rightarrow>
     (case ret_thermal i of
        Inl e \<Rightarrow> (take 3 (refresh_calls i), Inl (ParseThermal, e))
      | Inr t \<Rightarrow>
     (case ret_cpu i of
        Inl e \<Rightarrow> (take 4 (refresh_calls i), Inl (GetCpuUsage, e))
      | Inr c \<Rightarrow>
     (case ret_memory i of
        Inl e \<Rightarrow> (take 5 (refresh_calls i), Inl (GetMemoryInfo, e))
      | Inr m \<Rightarrow>
     (case ret_disk i of
        Inl e \<Rightarrow> (take 6 (refresh_calls i), Inl (GetDiskInfo, e))
      | Inr d \<Rightarrow>
          (refresh_calls i,
           Inr (st\<lparr>battery := Some b, pmset := Some p, thermal := Some t, cpu := c,
                   memory := Some m, disk := Some d,
                   last_update := time_time i\<rparr>))))))))"

text \<open>
  What a drawn frame reads. Subscripting a sample that is still \<open>None\<close> raises
  \<open>TypeError\<close>.
\<close>

record frame =
  f_battery :: battery_info
  f_pmset :: pmset_info
  f_thermal :: thermal_info
  f_cpu :: real
  f_memory :: memory_info
  f_disk :: disk_info

definition read_samples :: "dashboard \<Rightarrow> py_error + frame" where
  "read_samples st =
     (case (battery st, pmset st, thermal st, memory st, disk st) of
        (Some b, Some p, Some t, Some m, Some d) \<Rightarrow>
          Inr \<lparr>f_battery = b, f_pmset = p, f_thermal = t, f_cpu = cpu st, f_memory = m,
               f_disk = d\<rparr>
      | _ \<Rightarrow> Inl TypeError)"

text \<open>
  How a pass ends: with \<open>break\<close>; with the exception of a provider; with \<open>continue\<close>,
  nothing drawn; with an exception while reading the samples to draw; or with a frame
  drawn from the samples read. The state is kept where the loop goes on. A loop that
  ends at a drawn frame, as when a row does not fit the window, has run a shorter
  sequence of passes.
\<close>

datatype step =
  Break
  | Raised provider py_error
  | Continue dashboard
  | DrawRaised py_error
  | Drawn dashboard frame

text \<open>The rest of the body after the refresh: skip the drawing, or draw.\<close>

definition render :: "dashboard \<Rightarrow> step" where
  "render st =
     (if battery st = None then Continue st
      else (case read_samples st of Inl e \<Rightarrow> DrawRaised e | Inr f \<Rightarrow> Drawn st f))"

text \<open>
  One pass of the \<open>while True\<close> body: the provider calls made and how the pass ends.
  The keys are \<open>q\<close> 113, \<open>Q\<close> 81, \<open>r\<close> 114 and \<open>R\<close> 82.
\<close>

definition tick :: "tick_input \<Rightarrow> dashboard \<Rightarrow> (provider \<times> real) list \<times> step" where
  "tick i st =
     (let current_time = time_time i;
          key = getch i
      in if key = 113 \<or> key = 81 then ([], Break)
         else
           (let st1 = (if key = 114 \<or> key = 82 then st\<lparr>last_update := 0\<rparr> else st)
            in if current_time - last_update st1 \<ge> update_interval then
                 (case refresh i st1 of
                    (calls, Inl (p, e)) \<Rightarrow> (calls, Raised p e)
                  | (calls, Inr st2) \<Rightarrow> (calls, render st2))
               else ([], render st1)))"

text \<open>
  The loop over the passes it meets: it goes on from a \<open>continue\<close> and from a drawn
  frame, and ends otherwise. The result is the calls and the end of every pass.
\<close>

definition next_state :: "step \<Rightarrow> dashboard option" where
  "next_state s =
     (case s of Continue st \<Rightarrow> Some st | Drawn st f \<Rightarrow> Some st | Break \<Rightarrow> None
      | Raised p e \<Rightarrow> None | DrawRaised e \<Rightarrow> None)"

fun draw_dashboard ::
  "tick_input list \<Rightarrow> dashboard \<Rightarrow> ((provider \<times> real) list \<times> step) list" where
  "draw_dashboard [] st = []"
| "draw_dashboard (i # ins) st =
     (case tick i st of
        (calls, s) \<Rightarrow>
          (calls, s) #
          (case next_state s of
             Some st' \<Rightarrow> draw_dashboard ins st'
           | None \<Rightarrow> []))"

text \<open>
  The six samples of pass \<open>i\<close>, when its six calls return; the state holds no sample
  yet; the state holds the samples of pass \<open>i\<close>; and the state that the refresh of pass
  \<open>i\<close> leaves.
\<close>

definition frame_of :: "tick_input \<Rightarrow> frame option" where
  "frame_of i =
     (case (ret_battery i, ret_pmset i, ret_thermal i, ret_cpu i, ret_memory i,
            ret_disk i) of
        (Inr b, Inr p, Inr t, Inr c, Inr m, Inr d) \<Rightarrow>
          Some \<lparr>f_battery = b, f_pmset = p, f_thermal = t, f_cpu = c, f_memory = m,
                f_disk = d\<rparr>
      | _ \<Rightarrow> None)"

definition unset :: "dashboard \<Rightarrow> bool" where
  "unset st \<longleftrightarrow>
     battery st = None \<and> pmset st = None \<and> thermal st = None \<and> cpu st = 0 \<and>
     memory st = None \<and> disk st = None"

definition holds :: "frame \<Rightarrow> dashboard \<Rightarrow> bool" where
  "holds f st \<longleftrightarrow>
     battery st = Some (f_battery f) \<and> pmset st = Some (f_pmset f) \<and>
     thermal st = Some (f_thermal f) \<and> cpu st = f_cpu f \<and>
     memory st = Some (f_memory f) \<and> disk st = Some (f_disk f)"

definition batch_of :: "tick_input \<Rightarrow> dashboard \<Rightarrow> bool" where
  "batch_of i st = (case frame_of i of None \<Rightarrow> False | Some f \<Rightarrow> holds f st)"

definition committed :: "tick_input \<Rightarrow> dashboard \<Rightarrow> dashboard" where
  "committed i st =
     (case frame_of i of
        None \<Rightarrow> st
      | Some f \<Rightarrow>
          st\<lparr>battery := Some (f_battery f), pmset := Some (f_pmset f),
             thermal := Some (f_thermal f), cpu := f_cpu f,
             memory := Some (f_memory f), disk := Some (f_disk f),
             last_update := time_time i\<rparr>)"


subsection \<open>Example samples\<close>

text \<open>
  A battery that discharges 2500 mA at 11.1 V with 4000 mAh left; the same battery
  charging with 1500 mA on a 96 W adapter; charging reported with no charging current;
  and an adapter that reports no wattage.
\<close>

definition on_battery :: battery_info where
  "on_battery =
     \<lparr>current_capacity_mah = 4000, max_capacity_mah = 5000, design_capacity_mah = 5200,
      voltage_mv = 11100, amperage_ma = - 2500, is_charging = False,
      external_connected = False, cycle_count = 120, adapter_watts = 0,
      adapter_voltage_mv = 0, adapter_current_ma = 0, system_power_mw = 27750,
      charging_current_ma = 0, charging_voltage_mv = 0,
      cell_voltages = [3700, 3700, 3700]\<rparr>"

definition on_adapter :: battery_info where
  "on_adapter =
     on_battery\<lparr>amperage_ma := 1500, is_charging := True, external_connected := True,
       adapter_watts := 96, adapter_voltage_mv := 20000, adapter_current_ma := 4800,
       system_power_mw := 24000, charging_current_ma := 1500,
       charging_voltage_mv := 12600\<rparr>"







text \<open>
  Lines of \<open>pmset -g batt\<close>, the last line of \<open>pmset -g therm\<close>, and the first lines of
  \<open>vm_stat\<close>.
\<close>

definition pmset_line :: pystr where
  "pmset_line =
     str '' -InternalBattery-0 (id=1234)'' @ [9] @
     str ''82%; discharging; 4:31 remaining present: true''"

definition therm_line :: pystr where
  "therm_line = [9] @ str ''CPU_Speed_Limit '' @ [9] @ str ''= 87''"

definition pmset_charging_line :: pystr where
  "pmset_charging_line =
     str '' -InternalBattery-0 (id=1234)'' @ [9] @
     str ''45%; charging; 1:20 remaining present: true''"

definition pmset_capitals_line :: pystr where
  "pmset_capitals_line = str ''82%; DISCHARGING; (no estimate) present: true''"

definition vm_stat_lines :: pystr where
  "vm_stat_lines =
     str ''Mach Virtual Memory Statistics: (page size of 16384 bytes)'' @ [10] @
     str ''Pages free:                                3000.'' @ [10] @
     str ''Pages active:                            200000.'' @ [10] @
     str ''Pages wired down:                        100000.'' @ [10]"

definition therm_note :: pystr where
  "therm_note = str ''Note: No thermal warning level has been recorded''"

text \<open>
  Passes of the loop: the first one at a wall-clock time, with no key, each provider
  call taking half a second; one three seconds later; one eleven seconds later that
  finds the adapter plugged in; one in which \<open>get_memory_info\<close> raises; and passes
  with \<open>q\<close> and \<open>r\<close> pressed.
\<close>

definition first_frame :: frame where
  "first_frame =
     \<lparr>f_battery = on_battery,
      f_pmset = \<lparr>percentage = 82, status = str ''Discharging'',
                 time_remaining = str ''4:31''\<rparr>,
      f_thermal = \<lparr>cpu_speed_limit = 100\<rparr>,
      f_cpu = 12,
      f_memory = \<lparr>total_gb = 16, app_gb = 6, wired_gb = 2, compressed_gb = 1,
                  cached_gb = 4, free_gb = 1, purgeable_gb = 1, used_pct = 44\<rparr>,
      f_disk = \<lparr>disk_total_gb = 500, disk_used_gb = 200, disk_available_gb = 300,
                disk_used_pct = 40, disk_purgeable_gb = 300\<rparr>\<rparr>"

definition later_frame :: frame where
  "later_frame = first_frame\<lparr>f_battery := on_adapter, f_cpu := 35\<rparr>"

definition first_pass :: tick_input where
  "first_pass =
     \<lparr>time_time = 1700000000, getch = - 1,
      ret_battery = Inr (f_battery first_frame),
      ret_pmset = Inr (f_pmset first_frame),
      ret_thermal = Inr (f_thermal first_frame),
      ret_cpu = Inr (f_cpu first_frame),
      ret_memory = Inr (f_memory first_frame),
      ret_disk = Inr (f_disk first_frame),
      took = (\<lambda>p. 1 / 2)\<rparr>"

definition idle_pass :: tick_input where
  "idle_pass = first_pass\<lparr>time_time := 1700000003, ret_cpu := Inr 90\<rparr>"

definition later_pass :: tick_input where
  "later_pass =
     first_pass\<lparr>time_time := 1700000011, ret_battery := Inr on_adapter, ret_cpu := Inr 35\<rparr>"

definition failing_pass :: tick_input where
  "failing_pass =
     later_pass\<lparr>time_time := 1700000022, ret_battery := Inr on_battery,
       ret_memory := Inl ZeroDivisionError\<rparr>"

definition quit_pass :: tick_input where
  "quit_pass = later_pass\<lparr>getch := 113\<rparr>"

definition early_refresh_key_pass :: tick_input where
  "early_refresh_key_pass = first_pass\<lparr>time_time := 5, getch := 114\<rparr>"

definition example_passes :: "tick_input list" where
  "example_passes = [early_refresh_key_pass, first_pass, idle_pass, later_pass, quit_pass]"

definition failing_passes :: "tick_input list" where
  "failing_passes = [first_pass, failing_pass, later_pass]"

section \<open>Properties\<close>

subsection \<open>The progress bar\<close>

lemma length_repeat: "length (repeat s n) = nat n * length s"
  by (simp add: repeat_def length_concat sum_list_replicate)

lemma filled_clamp: "filled x width = filled (max 0 (min 100 x)) width"
  by (simp add: filled_def)

lemma filled_range:
  assumes "0 \<le> width"
  shows "0 \<le> filled x width \<and> filled x width \<le> width"
proof -
  define c :: real where "c = max 0 (min 100 x)"
  have c: "0 \<le> c" "c \<le> 100"
    by (simp_all add: c_def)
  define v :: real where "v = of_int width * c / 100"
  have w: "(0::real) \<le> of_int width"
    using assms by simp
  have v0: "0 \<le> v"
    unfolding v_def using c(1) w by simp
  have "of_int width * c \<le> of_int width * 100"
    using c(2) w by (rule mult_left_mono)
  then have v1: "v \<le> of_int width"
    unfolding v_def by simp
  have "filled x width = \<lfloor>v\<rfloor>"
    using v0 by (simp add: filled_def py_int_def v_def c_def)
  moreover have "0 \<le> \<lfloor>v\<rfloor>"
    using v0 by simp
  moreover have "\<lfloor>v\<rfloor> \<le> width"
    using v1 by (simp add: floor_le_iff)
  ultimately show ?thesis
    by simp
qed

text \<open>
  C4. For every percentage \<open>p\<close> and every width \<open>w \<ge> 0\<close> the bar is \<open>filled p w\<close> copies
  of \<open>fill\<close> followed by \<open>w - filled p w\<close> copies of \<open>empty\<close>, with
  \<open>0 \<le> filled p w \<le> w\<close>: exactly \<open>w\<close> glyphs, and a string of length \<open>w\<close> when each
  glyph is one character. The percentage is clamped to [0, 100]: the bar of -5 is the
  bar of 0 and the bar of 150 is the bar of 100.
\<close>

theorem make_bar_width_and_clamp:
  assumes "0 \<le> w"
  shows "make_bar p w fill empty' =
           concat (replicate (nat (filled p w)) fill) @
           concat (replicate (nat (w - filled p w)) empty')
         \<and> nat (filled p w) + nat (w - filled p w) = nat w
         \<and> (length fill = 1 \<and> length empty' = 1 \<longrightarrow>
              length (make_bar p w fill empty') = nat w)
         \<and> make_bar p w fill empty' = make_bar (max 0 (min 100 p)) w fill empty'
         \<and> make_bar (- 5) w fill empty' = make_bar 0 w fill empty'
         \<and> make_bar 150 w fill empty' = make_bar 100 w fill empty'"
proof -
  have r: "0 \<le> filled p w" "filled p w \<le> w"
    using filled_range [OF assms, of p] by simp_all
  have a: "make_bar p w fill empty' =
           concat (replicate (nat (filled p w)) fill) @
           concat (replicate (nat (w - filled p w)) empty')"
    by (simp add: make_bar_def repeat_def)
  have b: "nat (filled p w) + nat (w - filled p w) = nat w"
    using r by linarith
  have c: "length (make_bar p w fill empty') = nat w"
    if "length fill = 1" "length empty' = 1"
    using r that by (simp add: make_bar_def length_repeat)
  have d: "make_bar p w fill empty' = make_bar (max 0 (min 100 p)) w fill empty'"
    using filled_clamp [of p w] by (simp add: make_bar_def)
  have e: "make_bar (- 5) w fill empty' = make_bar 0 w fill empty'"
    by (simp add: make_bar_def filled_def)
  have f: "make_bar 150 w fill empty' = make_bar 100 w fill empty'"
    by (simp add: make_bar_def filled_def)
  from a b c d e f show ?thesis
    by blast
qed

theorem make_bar_width_and_clamp_witness:
  "(0::int) \<le> 20
   \<and> length FULL_BLOCK = 1 \<and> length LIGHT_SHADE = 1
   \<and> length (make_bar 130 20 FULL_BLOCK LIGHT_SHADE) = 20
   \<and> make_bar 75 20 FULL_BLOCK LIGHT_SHADE = repeat FULL_BLOCK 15 @ repeat LIGHT_SHADE 5
   \<and> make_bar (- 5) 20 FULL_BLOCK LIGHT_SHADE = make_bar 0 20 FULL_BLOCK LIGHT_SHADE
   \<and> make_bar 0 20 FULL_BLOCK LIGHT_SHADE = repeat LIGHT_SHADE 20
   \<and> make_bar 150 20 FULL_BLOCK LIGHT_SHADE = make_bar 100 20 FULL_BLOCK LIGHT_SHADE
   \<and> make_bar 100 20 FULL_BLOCK LIGHT_SHADE = repeat FULL_BLOCK 20"
proof -
  have w: "(0::int) \<le> 20"
    by simp
  have g: "length FULL_BLOCK = 1" "length LIGHT_SHADE = 1"
    by (simp_all add: FULL_BLOCK_def LIGHT_SHADE_def)
  have "length (make_bar 130 20 FULL_BLOCK LIGHT_SHADE) = nat 20"
    using make_bar_width_and_clamp [OF w, of 130 FULL_BLOCK LIGHT_SHADE] g by blast
  then have "length (make_bar 130 20 FULL_BLOCK LIGHT_SHADE) = 20"
    by simp
  moreover have "make_bar 75 20 FULL_BLOCK LIGHT_SHADE = repeat FULL_BLOCK 15 @ repeat LIGHT_SHADE 5"
    by (simp add: make_bar_def filled_def py_int_def)
  moreover have "make_bar (- 5) 20 FULL_BLOCK LIGHT_SHADE = make_bar 0 20 FULL_BLOCK LIGHT_SHADE"
    using make_bar_width_and_clamp [OF w, of 0 FULL_BLOCK LIGHT_SHADE] by blast
  moreover have "make_bar 0 20 FULL_BLOCK LIGHT_SHADE = repeat LIGHT_SHADE 20"
    by (simp add: make_bar_def filled_def py_int_def repeat_def)
  moreover have "make_bar 150 20 FULL_BLOCK LIGHT_SHADE = make_bar 100 20 FULL_BLOCK LIGHT_SHADE"
    using make_bar_width_and_clamp [OF w, of 0 FULL_BLOCK LIGHT_SHADE] by blast
  moreover have "make_bar 100 20 FULL_BLOCK LIGHT_SHADE = repeat FULL_BLOCK 20"
    by (simp add: make_bar_def filled_def py_int_def repeat_def)
  ultimately show ?thesis
    using w g by simp
qed

subsection \<open>The status of parse_pmset\<close>

text \<open>The parser on a line that \<open>pmset -g batt\<close> prints.\<close>

lemma parse_pmset_example:
  "parse_pmset (Completed 0 pmset_line) =
     \<lparr>percentage = 82, status = str ''Discharging'', time_remaining = str ''4:31''\<rparr>"
  by (simp add: parse_pmset_def run_cmd_def pmset_line_def pmset_status_def lower_def
      percent_at_def remaining_at_def is_digit_def is_space_def int_of_def str_def)

lemma startswith_iff: "startswith s p \<longleftrightarrow> (\<exists>r. s = p @ r)"
  by (induction s p rule: startswith.induct) auto

text \<open>\<open>is_in\<close> is the substring test.\<close>

lemma is_in_iff: "is_in needle s \<longleftrightarrow> (\<exists>p r. s = p @ needle @ r)"
proof (induction s)
  case Nil
  then show ?case by auto
next
  case (Cons c cs)
  show ?case
  proof
    assume "is_in needle (c # cs)"
    then consider "startswith (c # cs) needle" | "is_in needle cs"
      by auto
    then show "\<exists>p r. c # cs = p @ needle @ r"
    proof cases
      case 1
      then obtain r where "c # cs = needle @ r"
        by (auto simp: startswith_iff)
      then have "c # cs = [] @ needle @ r"
        by simp
      then show ?thesis
        by blast
    next
      case 2
      then obtain p r where "cs = p @ needle @ r"
        using Cons.IH by blast
      then have "c # cs = (c # p) @ needle @ r"
        by simp
      then show ?thesis
        by blast
    qed
  next
    assume "\<exists>p r. c # cs = p @ needle @ r"
    then obtain p r where e: "c # cs = p @ needle @ r"
      by blast
    show "is_in needle (c # cs)"
    proof (cases p)
      case Nil
      then have "startswith (c # cs) needle"
        using e by (auto simp: startswith_iff)
      then show ?thesis
        by simp
    next
      case (Cons a p')
      then have "cs = p' @ needle @ r"
        using e by simp
      then have "is_in needle cs"
        using Cons.IH by blast
      then show ?thesis
        by simp
    qed
  qed
qed

lemma discharging_has_charging:
  assumes "is_in (str ''discharging'') s"
  shows "is_in (str ''charging'') s"
proof -
  obtain p r where "s = p @ str ''discharging'' @ r"
    using assms by (auto simp: is_in_iff)
  moreover have "str ''discharging'' = str ''dis'' @ str ''charging''"
    by (simp add: str_def)
  ultimately have "s = (p @ str ''dis'') @ str ''charging'' @ r"
    by simp
  then show ?thesis
    unfolding is_in_iff by blast
qed

lemma status_literals:
  "str ''Charging'' \<noteq> str ''Discharging''"
  "str ''Charging'' \<noteq> str ''Fully Charged''"
  "str ''Charging'' \<noteq> str ''On AC''"
  "str ''Charging'' \<noteq> str ''Unknown''"
  by (simp_all add: str_def)

text \<open>
  C9. Whatever running \<open>pmset -g batt\<close> does, with \<open>output\<close> what \<open>run_cmd\<close> returns:
  when the lowercased output contains \<open>discharging\<close> the status is \<open>Discharging\<close> and
  not \<open>Charging\<close>, although such an output contains \<open>charging\<close> as well; and the
  status is \<open>Charging\<close> exactly when the lowercased output contains \<open>charging\<close> and
  does not contain \<open>discharging\<close>.
\<close>

theorem pmset_status_charging:
  "(is_in (str ''discharging'') (lower (run_cmd r)) \<longrightarrow>
      status (parse_pmset r) = str ''Discharging'' \<and>
      status (parse_pmset r) \<noteq> str ''Charging'')
   \<and> (is_in (str ''discharging'') (lower (run_cmd r)) \<longrightarrow>
         is_in (str ''charging'') (lower (run_cmd r)))
   \<and> (status (parse_pmset r) = str ''Charging'' \<longleftrightarrow>
         is_in (str ''charging'') (lower (run_cmd r)) \<and>
         \<not> is_in (str ''discharging'') (lower (run_cmd r)))"
  using status_literals discharging_has_charging [of "lower (run_cmd r)"]
  by (auto simp: parse_pmset_def pmset_status_def Let_def)

theorem pmset_status_charging_witness:
  "is_in (str ''discharging'') (lower (run_cmd (Completed 0 pmset_line)))
   \<and> is_in (str ''charging'') (lower (run_cmd (Completed 0 pmset_line)))
   \<and> status (parse_pmset (Completed 0 pmset_line)) = str ''Discharging''
   \<and> status (parse_pmset (Completed 0 pmset_line)) \<noteq> str ''Charging''
   \<and> is_in (str ''charging'') (lower (run_cmd (Completed 0 pmset_charging_line)))
   \<and> \<not> is_in (str ''discharging'') (lower (run_cmd (Completed 0 pmset_charging_line)))
   \<and> status (parse_pmset (Completed 0 pmset_charging_line)) = str ''Charging''
   \<and> is_in (str ''discharging'') (lower (run_cmd (Completed 0 pmset_capitals_line)))
   \<and> status (parse_pmset (Completed 0 pmset_capitals_line)) = str ''Discharging''"
proof -
  have u: "is_in (str ''discharging'') (lower (run_cmd (Completed 0 pmset_capitals_line)))"
    by (simp add: run_cmd_def pmset_capitals_line_def lower_def str_def)
  have d: "is_in (str ''discharging'') (lower (run_cmd (Completed 0 pmset_line)))"
    by (simp add: run_cmd_def pmset_line_def lower_def str_def)
  have c: "is_in (str ''charging'') (lower (run_cmd (Completed 0 pmset_charging_line)))"
    by (simp add: run_cmd_def pmset_charging_line_def lower_def str_def)
  have n: "\<not> is_in (str ''discharging'') (lower (run_cmd (Completed 0 pmset_charging_line)))"
    by (simp add: run_cmd_def pmset_charging_line_def lower_def str_def)
  show ?thesis
    using d c n u pmset_status_charging [of "Completed 0 pmset_line"]
      pmset_status_charging [of "Completed 0 pmset_charging_line"]
      pmset_status_charging [of "Completed 0 pmset_capitals_line"]
    by blast
qed

subsection \<open>The defaults of parse_thermal and get_memory_info\<close>

text \<open>
  \<open>get_memory_info\<close> on lines that \<open>vm_stat\<close> prints, and its one exception: a memory
  size of 0.
\<close>

lemma vm_pages_example:
  "vm_pages vm_stat_lines (str ''Pages active'') = Some 200000 \<and>
   vm_pages vm_stat_lines (str ''Pages wired down'') = Some 100000 \<and>
   vm_pages vm_stat_lines (str ''Pages free'') = Some 3000 \<and>
   vm_pages vm_stat_lines (str ''Pages purgeable'') = None"
  by (simp add: vm_pages_def vm_stat_lines_def page_tail_def strip_def is_space_def
      is_digit_def int_of_def str_def)

lemma get_memory_info_zero_total:
  "get_memory_info (Completed 0 (str ''0'' @ [10])) TimeoutExpired TimeoutExpired =
     Inl ZeroDivisionError"
  by (simp add: get_memory_info_def run_cmd_def strip_def isdigit_def is_space_def
      is_digit_def int_of_def truediv_def str_def)

lemma speed_limit_at_startswith:
  "speed_limit_at s = Some n \<Longrightarrow> startswith s (str ''CPU_Speed_Limit'')"
  by (simp add: speed_limit_at_def split: if_splits)

lemma no_name_no_speed_limit:
  "\<not> is_in (str ''CPU_Speed_Limit'') s \<Longrightarrow> re_search speed_limit_at s = None"
proof (induction s)
  case Nil
  then show ?case
    by (simp add: speed_limit_at_def str_def)
next
  case (Cons c cs)
  then have "\<not> startswith (c # cs) (str ''CPU_Speed_Limit'')"
    "\<not> is_in (str ''CPU_Speed_Limit'') cs"
    by simp_all
  then show ?case
    using Cons.IH speed_limit_at_startswith [of "c # cs"]
    by (cases "speed_limit_at (c # cs)") auto
qed

lemma memory_failure_default:
  "run_cmd a = [] \<Longrightarrow> run_cmd b = [] \<Longrightarrow> run_cmd c = [] \<Longrightarrow>
   get_memory_info a b c =
     Inr \<lparr>total_gb = 16, app_gb = 0, wired_gb = 0, compressed_gb = 0, cached_gb = 0,
          free_gb = 0, purgeable_gb = 0, used_pct = 0\<rparr>"
  by (simp add: get_memory_info_def strip_def isdigit_def vm_pages_def dict_get_def
      truediv_def)

text \<open>
  Against C10 as stated (the thermal provider as the one provider whose failure default
  is not zero): when its three queries time out, \<open>get_memory_info\<close> returns a total of
  16 GB.
\<close>

theorem memory_failure_default_16:
  "get_memory_info TimeoutExpired TimeoutExpired TimeoutExpired =
     Inr \<lparr>total_gb = 16, app_gb = 0, wired_gb = 0, compressed_gb = 0, cached_gb = 0,
          free_gb = 0, purgeable_gb = 0, used_pct = 0\<rparr>
   \<and> cpu_speed_limit (parse_thermal TimeoutExpired) = 100"
  by (simp add: memory_failure_default run_cmd_def parse_thermal_def speed_limit_at_def
      str_def)

text \<open>
  C10, amended. When the thermal query times out or raises, when its output is empty,
  and whenever the output has no match of \<open>CPU_Speed_Limit\s*=\s*(\d+)\<close> (as when it
  does not contain \<open>CPU_Speed_Limit\<close> at all), \<open>cpu_speed_limit\<close> is 100, not 0; a match
  gives its number. The thermal provider is not the only one with a default that is not
  zero: \<open>get_memory_info\<close> reports a total of 16 GB when its queries return nothing.
\<close>

theorem thermal_failure_default:
  "cpu_speed_limit (parse_thermal TimeoutExpired) = 100
   \<and> cpu_speed_limit (parse_thermal OtherException) = 100
   \<and> (run_cmd r = [] \<longrightarrow> cpu_speed_limit (parse_thermal r) = 100)
   \<and> (re_search speed_limit_at (run_cmd r) = None \<longrightarrow>
        cpu_speed_limit (parse_thermal r) = 100)
   \<and> (\<not> is_in (str ''CPU_Speed_Limit'') (run_cmd r) \<longrightarrow>
        cpu_speed_limit (parse_thermal r) = 100)
   \<and> (re_search speed_limit_at (run_cmd r) = Some n \<longrightarrow>
        cpu_speed_limit (parse_thermal r) = n)
   \<and> (run_cmd a = [] \<and> run_cmd b = [] \<and> run_cmd c = [] \<longrightarrow>
        map_sum id total_gb (get_memory_info a b c) = Inr 16)"
proof -
  have e: "re_search speed_limit_at [] = None"
    by (simp add: speed_limit_at_def str_def)
  have 1: "cpu_speed_limit (parse_thermal TimeoutExpired) = 100"
    "cpu_speed_limit (parse_thermal OtherException) = 100"
    using e by (simp_all add: parse_thermal_def run_cmd_def)
  have 2: "cpu_speed_limit (parse_thermal r) = 100" if "run_cmd r = []"
    using e that by (simp add: parse_thermal_def)
  have 3: "cpu_speed_limit (parse_thermal r) = 100"
    if "re_search speed_limit_at (run_cmd r) = None"
    using that by (simp add: parse_thermal_def)
  have 4: "cpu_speed_limit (parse_thermal r) = 100"
    if "\<not> is_in (str ''CPU_Speed_Limit'') (run_cmd r)"
    using no_name_no_speed_limit [OF that] by (simp add: parse_thermal_def)
  have 5: "cpu_speed_limit (parse_thermal r) = n"
    if "re_search speed_limit_at (run_cmd r) = Some n"
    using that by (simp add: parse_thermal_def)
  have 6: "map_sum id total_gb (get_memory_info a b c) = Inr 16"
    if "run_cmd a = []" "run_cmd b = []" "run_cmd c = []"
    using memory_failure_default [OF that] by simp
  from 1 2 3 4 5 6 show ?thesis
    by blast
qed

theorem thermal_failure_default_witness:
  "run_cmd TimeoutExpired = []
   \<and> cpu_speed_limit (parse_thermal TimeoutExpired) = 100
   \<and> \<not> is_in (str ''CPU_Speed_Limit'') (run_cmd (Completed 0 therm_note))
   \<and> cpu_speed_limit (parse_thermal (Completed 0 therm_note)) = 100
   \<and> re_search speed_limit_at (run_cmd (Completed 0 therm_line)) = Some 87
   \<and> cpu_speed_limit (parse_thermal (Completed 0 therm_line)) = 87
   \<and> map_sum id total_gb (get_memory_info OtherException TimeoutExpired TimeoutExpired)
       = Inr 16"
proof -
  have t: "run_cmd TimeoutExpired = []" "run_cmd OtherException = []"
    by (simp_all add: run_cmd_def)
  have n: "\<not> is_in (str ''CPU_Speed_Limit'') (run_cmd (Completed 0 therm_note))"
    by (simp add: run_cmd_def therm_note_def str_def)
  have m: "re_search speed_limit_at (run_cmd (Completed 0 therm_line)) = Some 87"
    by (simp add: run_cmd_def therm_line_def speed_limit_at_def str_def is_space_def
        is_digit_def int_of_def)
  show ?thesis
    using t n m thermal_failure_default [of TimeoutExpired 87 OtherException TimeoutExpired
        TimeoutExpired]
      thermal_failure_default [of "Completed 0 therm_note" 87 OtherException TimeoutExpired
        TimeoutExpired]
      thermal_failure_default [of "Completed 0 therm_line" 87 OtherException TimeoutExpired
        TimeoutExpired]
    by blast
qed

subsection \<open>Rounding to binary64\<close>

lemma round_half_even_bounds: "\<lfloor>x\<rfloor> \<le> round_half_even x \<and> round_half_even x \<le> \<lfloor>x\<rfloor> + 1"
  by (simp add: round_half_even_def Let_def)

lemma round_half_even_of_int [simp]: "round_half_even (of_int n) = n"
  by (simp add: round_half_even_def)


lemma round_half_even_ge: "of_int n \<le> y \<Longrightarrow> n \<le> round_half_even y"
proof -
  assume "of_int n \<le> y"
  then have "n \<le> \<lfloor>y\<rfloor>" by (simp add: le_floor_iff)
  then show ?thesis using round_half_even_bounds [of y] by linarith
qed




lemma binary64_0 [simp]: "binary64 0 = 0"
  by (simp add: binary64_def)

lemma binary64_minus: "binary64 (- x) = - binary64 x"
  by (simp add: binary64_def Let_def sgn_minus)

lemma round_half_even_nonneg: "0 \<le> y \<Longrightarrow> 0 \<le> round_half_even y"
  using round_half_even_ge [of 0 y] by simp

lemma binary64_nonneg: "0 \<le> x \<Longrightarrow> 0 \<le> binary64 x"
  by (simp add: binary64_def Let_def round_half_even_nonneg)

lemma binary64_abs: "\<bar>binary64 x\<bar> = binary64 \<bar>x\<bar>"
proof (cases "0 \<le> x")
  case True
  then show ?thesis using binary64_nonneg [of x] by simp
next
  case False
  then have "0 \<le> binary64 (- x)" by (simp add: binary64_nonneg)
  then show ?thesis using False by (simp add: binary64_minus)
qed

lemma ulp_scale: "2 ^ 52 * 2 powr (of_int e - 52) = (2::real) powr of_int e"
  by (simp add: powr_diff)



lemma binary64_pos:
  assumes "0 < x"
  shows "binary64 x =
     of_int (round_half_even (x / 2 powr (of_int (max \<lfloor>log 2 x\<rfloor> (- 1022)) - 52))) *
     2 powr (of_int (max \<lfloor>log 2 x\<rfloor> (- 1022)) - 52)"
  using assms by (simp add: binary64_def Let_def)



lemma binary64_ge_pos:
  assumes "2 powr (of_int k) \<le> x" "- 1022 \<le> k"
  shows "2 powr (of_int k) \<le> binary64 x"
proof -
  have x: "0 < x" using assms(1) by (smt (verit) powr_gt_zero)
  define e0 where "e0 = \<lfloor>log 2 x\<rfloor>"
  have "of_int k \<le> log 2 x"
    using x assms(1) by (simp add: le_log_iff)
  then have k: "k \<le> e0" by (simp add: e0_def le_floor_iff)
  then have m: "max e0 (- 1022) = e0" using assms(2) by simp
  define u :: real where "u = 2 powr (of_int e0 - 52)"
  have u: "0 < u" by (simp add: u_def)
  have "2 powr (of_int e0) \<le> x"
    using x by (simp add: e0_def powr_le_iff)
  moreover have "of_int (2 ^ 52) * u = 2 powr (of_int e0)"
    using ulp_scale [of e0] by (simp add: u_def)
  ultimately have "of_int (2 ^ 52) \<le> x / u"
    using u by (simp add: field_simps)
  then have "2 ^ 52 \<le> round_half_even (x / u)" by (rule round_half_even_ge)
  then have "of_int (2 ^ 52) * u \<le> of_int (round_half_even (x / u)) * u"
    using u by (simp add: mult_right_mono del: of_int_power)
  moreover have "binary64 x = of_int (round_half_even (x / u)) * u"
    using binary64_pos [OF x] by (simp add: u_def e0_def [symmetric] m)
  moreover have "(2::real) powr (of_int k) \<le> 2 powr (of_int e0)" using k by simp
  ultimately show ?thesis
    using \<open>of_int (2 ^ 52) * u = 2 powr (of_int e0)\<close> by linarith
qed









lemma binary64_eq_0: "binary64 x = 0 \<Longrightarrow> \<bar>x\<bar> < 1"
proof (rule ccontr)
  assume z: "binary64 x = 0" and "\<not> \<bar>x\<bar> < 1"
  then have "2 powr (of_int 0) \<le> \<bar>x\<bar>"
    by simp
  then have "2 powr (of_int 0) \<le> binary64 \<bar>x\<bar>"
    by (rule binary64_ge_pos) simp
  then show False
    using z binary64_abs [of x] by simp
qed





lemma int_truediv_cases:
  "int_truediv a b =
     (if b = 0 then Inl ZeroDivisionError
      else if overflows (real_of_int a / real_of_int b) then Inl OverflowError
      else Inr (if a = 0 \<and> b < 0 then NegZero else fl (real_of_int a / real_of_int b)))"
  by (simp add: int_truediv_def)


subsection \<open>Battery health\<close>








subsection \<open>The charging and discharging section\<close>

lemma hours_minutes_floor:
  "0 \<le> h \<Longrightarrow> hours_minutes h = (\<lfloor>h * 60\<rfloor> div 60, \<lfloor>h * 60\<rfloor> mod 60)"
  by (simp add: hours_minutes_def py_int_def Let_def)

text \<open>
  C7. A battery sample with instantaneous current -2500 mA, voltage 11100 mV and
  4000 mAh left, not charging and without external power: the section is the
  discharging block, the discharge power is 2500 * 11100 / 1000000 = 27.75 W (written
  with one decimal, 27.8W), the time to empty is 4000 / 2500 = 1.6 hours, that is 96
  minutes, and the row reads \<open>1h 36m\<close>.
\<close>

theorem discharging_scenario:
  assumes "amperage_ma b = - 2500" "voltage_mv b = 11100" "current_capacity_mah b = 4000"
    "\<not> is_charging b" "\<not> external_connected b"
  shows "discharge_power b = 27.75
     \<and> truediv (real_of_int (current_capacity_mah b)) (real_of_int (discharge_ma b)) = Inr 1.6
     \<and> hours_minutes 1.6 = (1, 36)
     \<and> charge_section b row =
         Inr ([Addstr row 0 DISCHARGING_TITLE (Bold YELLOW),
               Addstr (row + 1) 2 (str ''Power:          27.8W (2.50A)'') (Plain WHITE),
               Addstr (row + 2) 2 (str ''Time to Empty:  1h 36m'') (Plain YELLOW)],
              row + 4)"
proof -
  have ma: "discharge_ma b = 2500"
    using assms by (simp add: discharge_ma_def)
  have pw: "discharge_power b = 27.75"
    using assms by (simp add: discharge_power_def ma)
  have hours: "truediv (real_of_int (current_capacity_mah b)) (real_of_int (discharge_ma b)) = Inr 1.6"
    using assms by (simp add: truediv_def ma)
  have hm: "hours_minutes 1.6 = (1, 36)"
    by (simp add: hours_minutes_def py_int_def Let_def)
  have row1: "discharging_power_row b (row + 1) =
      Addstr (row + 1) 2 (str ''Power:          27.8W (2.50A)'') (Plain WHITE)"
    unfolding discharging_power_row_def pw ma
    by (simp add: fmt_f_def round_half_even_def digits.simps str_def)
  have row2: "str ''Time to Empty:  '' @ hm_text (hours_minutes 1.6) = str ''Time to Empty:  1h 36m''"
    unfolding hm
    by (simp add: hm_text_def fmt_d_def fmt_02d_def digits.simps str_def)
  have "charge_section b row =
         Inr ([Addstr row 0 DISCHARGING_TITLE (Bold YELLOW),
               discharging_power_row b (row + 1),
               Addstr (row + 2) 2 (str ''Time to Empty:  '' @ hm_text (hours_minutes 1.6)) (Plain YELLOW)],
              row + 4)"
    using assms hours by (simp add: charge_section_def discharging_block_def ma)
  then show ?thesis
    using pw hours hm row1 row2 by simp
qed

theorem discharging_scenario_witness:
  "amperage_ma on_battery = - 2500 \<and> voltage_mv on_battery = 11100
   \<and> current_capacity_mah on_battery = 4000
   \<and> \<not> is_charging on_battery \<and> \<not> external_connected on_battery
   \<and> discharge_power on_battery = 27.75
   \<and> charge_section on_battery 17 =
         Inr ([Addstr 17 0 DISCHARGING_TITLE (Bold YELLOW),
               Addstr 18 2 (str ''Power:          27.8W (2.50A)'') (Plain WHITE),
               Addstr 19 2 (str ''Time to Empty:  1h 36m'') (Plain YELLOW)],
              21)"
proof -
  have h: "amperage_ma on_battery = - 2500" "voltage_mv on_battery = 11100"
    "current_capacity_mah on_battery = 4000"
    "\<not> is_charging on_battery" "\<not> external_connected on_battery"
    by (simp_all add: on_battery_def)
  show ?thesis
    using h discharging_scenario [OF h, of 17] by simp
qed

text \<open>A real of the binade \<open>[2 ^ k, 2 ^ (k + 1))\<close> is rounded to a multiple of \<open>2 ^ (k - 52)\<close>.\<close>

lemma binary64_binade:
  assumes "2 ^ k \<le> x" "x < 2 ^ Suc k" "k \<le> 52"
  shows "binary64 x = real_of_int (round_half_even (x * 2 ^ (52 - k))) / 2 ^ (52 - k)"
proof -
  have x: "0 < x"
    using assms(1) by (smt (verit) zero_less_power)
  have "2 powr (of_int (int k)) \<le> x \<and> x < 2 powr (of_int (int k + 1))"
    using assms by (simp add: powr_realpow powr_add)
  then have e: "\<lfloor>log 2 x\<rfloor> = int k"
    using x by (subst floor_log_eq_powr_iff) simp_all
  have "(2::real) powr (real k - 52) = 2 powr (- real (52 - k))"
    using assms(3) by simp
  also have "\<dots> = 1 / 2 ^ (52 - k)"
    by (simp add: powr_minus_divide powr_realpow)
  finally have u: "(2::real) powr (real k - 52) = 1 / 2 ^ (52 - k)" .
  show ?thesis
    using x by (simp add: binary64_def e u Let_def)
qed

text \<open>
  The float operations of that scenario, each rounded to binary64: the power and the
  current are exact, the quotient 4000 / 2500 is not, and its product with 60 rounds to
  96 all the same.
\<close>

lemma discharging_scenario_binary64:
  "binary64 (real_of_int (2500 * 11100) / 1000000) = 27.75
   \<and> binary64 (real_of_int 2500 / 1000) = 2.5
   \<and> py_int (binary64 (binary64 (real_of_int 4000 / real_of_int 2500) * 60)) = 96
   \<and> (96 div 60, 96 mod 60) = (1 :: int, 36 :: int)"
proof -
  have p: "binary64 (111 / 4) = 111 / 4"
    using binary64_binade [of 4 "111 / 4"] by (simp add: round_half_even_def)
  have a: "binary64 (5 / 2) = 5 / 2"
    using binary64_binade [of 1 "5 / 2"] by (simp add: round_half_even_def)
  have h: "binary64 (8 / 5) = 7205759403792794 / 2 ^ 52"
    using binary64_binade [of 0 "8 / 5"] by (simp add: round_half_even_def)
  have "binary64 (7205759403792794 / 2 ^ 52 * 60) = 96"
    using binary64_binade [of 6 "7205759403792794 / 2 ^ 52 * 60"]
    by (simp add: round_half_even_def)
  then have m: "binary64 (binary64 (8 / 5) * 60) = 96"
    by (simp only: h)
  have 1: "binary64 (real_of_int (2500 * 11100) / 1000000) = 27.75"
    using p by simp
  have 2: "binary64 (real_of_int 2500 / 1000) = 2.5"
    using a by simp
  have "binary64 (real_of_int 4000 / real_of_int 2500) = binary64 (8 / 5)"
    by simp
  then have 3: "py_int (binary64 (binary64 (real_of_int 4000 / real_of_int 2500) * 60)) = 96"
    using m by (simp add: py_int_def)
  show ?thesis
    using 1 2 3 by simp
qed











subsection \<open>The power balance section\<close>

lemma fl_0 [simp]: "fl 0 = Fin 0"
  by (simp add: fl_def overflows_def)


























subsection \<open>The loop\<close>

text \<open>The refresh block either commits the six samples or stops at the first call that raises.\<close>

lemma frame_of_Some:
  "frame_of i = Some f \<longleftrightarrow>
     ret_battery i = Inr (f_battery f) \<and> ret_pmset i = Inr (f_pmset f) \<and>
     ret_thermal i = Inr (f_thermal f) \<and> ret_cpu i = Inr (f_cpu f) \<and>
     ret_memory i = Inr (f_memory f) \<and> ret_disk i = Inr (f_disk f)"
  by (cases f) (auto simp: frame_of_def split: sum.splits)

lemma refresh_returns:
  assumes "frame_of i = Some f"
  shows "refresh i st = (refresh_calls i, Inr (committed i st))"
proof -
  have c: "committed i st =
      st\<lparr>battery := Some (f_battery f), pmset := Some (f_pmset f),
         thermal := Some (f_thermal f), cpu := f_cpu f,
         memory := Some (f_memory f), disk := Some (f_disk f),
         last_update := time_time i\<rparr>"
    using assms by (simp add: committed_def)
  show ?thesis
    unfolding c using assms by (simp add: frame_of_Some refresh_def)
qed

lemma length_refresh_calls: "length (refresh_calls i) = 6"
  by (simp add: refresh_calls_def Let_def)

lemma map_fst_refresh_calls: "map fst (refresh_calls i) = all_providers"
  by (simp add: refresh_calls_def all_providers_def Let_def)

lemma refresh_raises:
  assumes "frame_of i = None"
  shows "\<exists>n p e. refresh i st = (take n (refresh_calls i), Inl (p, e)) \<and>
           0 < n \<and> n \<le> 6 \<and> p = all_providers ! (n - 1)"
proof -
  have c: "\<exists>n p e. (take k (refresh_calls i), Inl (q, x)) = (take n (refresh_calls i), Inl (p, e)) \<and>
           0 < n \<and> n \<le> 6 \<and> p = all_providers ! (n - 1)"
    if "0 < k" "k \<le> 6" "q = all_providers ! (k - 1)" for k q and x :: py_error
    using that by blast
  show ?thesis
    using assms
    by (auto simp: refresh_def frame_of_def all_providers_def split: sum.splits
        intro!: c)
qed

text \<open>Drawing from a state that holds a batch, and from the unset state.\<close>

lemma read_samples_holds: "holds f st \<Longrightarrow> read_samples st = Inr f"
  by (cases f) (simp add: holds_def read_samples_def)

lemma render_holds: "holds f st \<Longrightarrow> render st = Drawn st f"
  by (simp add: render_def read_samples_holds) (simp add: holds_def)

lemma render_unset: "unset st \<Longrightarrow> render st = Continue st"
  by (simp add: render_def unset_def)

lemma committed_holds: "frame_of i = Some f \<Longrightarrow> holds f (committed i st)"
  by (simp add: committed_def holds_def)

lemma holds_last_update: "holds f (st\<lparr>last_update := x\<rparr>) = holds f st"
  by (simp add: holds_def)

lemma unset_last_update: "unset (st\<lparr>last_update := x\<rparr>) = unset st"
  by (simp add: unset_def)

lemma not_unset_holds: "holds f st \<Longrightarrow> \<not> unset st"
  by (simp add: holds_def unset_def)

text \<open>
  A pass of the loop is one of four: it breaks, it refreshes and draws the new batch, a
  provider raises during the refresh, or it keeps the samples it has.
\<close>

lemma tick_quit:
  assumes "getch i = 113 \<or> getch i = 81"
  shows "tick i st = ([], Break)"
  using assms by (simp add: tick_def)

lemma tick_refresh:
  assumes "getch i \<noteq> 113" "getch i \<noteq> 81"
    and "update_interval \<le>
           time_time i - (if getch i = 114 \<or> getch i = 82 then 0 else last_update st)"
    and "frame_of i = Some f"
  shows "tick i st = (refresh_calls i, Drawn (committed i st) f)"
proof -
  have c: "committed i (st\<lparr>last_update := 0\<rparr>) = committed i st"
    using assms(4) by (simp add: committed_def)
  have d: "render (committed i st) = Drawn (committed i st) f"
    using committed_holds [OF assms(4)] by (rule render_holds)
  show ?thesis
  proof (cases "getch i = 114 \<or> getch i = 82")
    case True
    then show ?thesis
      using assms(1-3) refresh_returns [OF assms(4), of "st\<lparr>last_update := 0\<rparr>"] c d
      by (simp add: tick_def Let_def)
  next
    case False
    then show ?thesis
      using assms(1-3) refresh_returns [OF assms(4), of st] d
      by (simp add: tick_def Let_def)
  qed
qed

lemma tick_raise:
  assumes "getch i \<noteq> 113" "getch i \<noteq> 81"
    and "update_interval \<le>
           time_time i - (if getch i = 114 \<or> getch i = 82 then 0 else last_update st)"
    and "frame_of i = None"
  shows "\<exists>n p e. tick i st = (take n (refresh_calls i), Raised p e) \<and>
           0 < n \<and> n \<le> 6 \<and> p = all_providers ! (n - 1)"
proof (cases "getch i = 114 \<or> getch i = 82")
  case True
  obtain n p e where r: "refresh i (st\<lparr>last_update := 0\<rparr>) = (take n (refresh_calls i), Inl (p, e))"
    and n: "0 < n" "n \<le> 6" "p = all_providers ! (n - 1)"
    using refresh_raises [OF assms(4), of "st\<lparr>last_update := 0\<rparr>"] by blast
  have "tick i st = (take n (refresh_calls i), Raised p e)"
    using True assms(1-3) r by (simp add: tick_def Let_def)
  then show ?thesis
    using n by blast
next
  case False
  obtain n p e where r: "refresh i st = (take n (refresh_calls i), Inl (p, e))"
    and n: "0 < n" "n \<le> 6" "p = all_providers ! (n - 1)"
    using refresh_raises [OF assms(4), of st] by blast
  have "tick i st = (take n (refresh_calls i), Raised p e)"
    using False assms(1-3) r by (simp add: tick_def Let_def)
  then show ?thesis
    using n by blast
qed

lemma tick_keep:
  assumes "getch i \<noteq> 113" "getch i \<noteq> 81"
    and "\<not> update_interval \<le>
           time_time i - (if getch i = 114 \<or> getch i = 82 then 0 else last_update st)"
  shows "tick i st =
           ([], render (if getch i = 114 \<or> getch i = 82 then st\<lparr>last_update := 0\<rparr> else st))"
proof (cases "getch i = 114 \<or> getch i = 82")
  case True
  then show ?thesis
    using assms by (simp add: tick_def Let_def)
next
  case False
  then show ?thesis
    using assms by (simp add: tick_def Let_def)
qed

text \<open>
  The invariant of the loop: the state is unset or holds the batch of one earlier pass.
\<close>

lemma tick_step:
  assumes inv: "unset st \<or> (\<exists>j\<in>S. batch_of j st)"
    and t: "tick i st = (calls, s)"
  shows "(s = Break \<or> (\<exists>p e. s = Raised p e) \<or> (\<exists>st'. s = Continue st' \<and> unset st') \<or>
          (\<exists>st' f. s = Drawn st' f \<and> (\<exists>j\<in>insert i S. frame_of j = Some f \<and> holds f st'))) \<and>
         (\<forall>st'. next_state s = Some st' \<longrightarrow>
            unset st' \<or> (\<exists>j\<in>insert i S. batch_of j st'))"
proof (cases "getch i = 113 \<or> getch i = 81")
  case True
  then have "s = Break"
    using t by (simp add: tick_quit)
  then show ?thesis
    by (simp add: next_state_def)
next
  case quit: False
  show ?thesis
  proof (cases "update_interval \<le>
           time_time i - (if getch i = 114 \<or> getch i = 82 then 0 else last_update st)")
    case due: True
    show ?thesis
    proof (cases "frame_of i")
      case None
      then obtain p e where "s = Raised p e"
        using tick_raise [of i st] quit due t by auto
      then show ?thesis
        by (auto simp: next_state_def)
    next
      case (Some f)
      then have s: "s = Drawn (committed i st) f"
        using tick_refresh [of i st f] quit due t by simp
      have h: "holds f (committed i st)"
        using Some by (rule committed_holds)
      then have "batch_of i (committed i st)"
        using Some by (simp add: batch_of_def)
      then show ?thesis
        using s h Some by (auto simp: next_state_def)
    qed
  next
    case False
    define st1 where "st1 = (if getch i = 114 \<or> getch i = 82 then st\<lparr>last_update := 0\<rparr> else st)"
    have s: "s = render st1"
      using tick_keep [of i st] quit False t by (simp add: st1_def)
    have inv1: "unset st1 \<or> (\<exists>j\<in>S. batch_of j st1)"
      using inv by (auto simp: st1_def unset_last_update batch_of_def holds_last_update
          split: option.splits)
    then show ?thesis
    proof
      assume u: "unset st1"
      then have "s = Continue st1"
        using s by (simp add: render_unset)
      then show ?thesis
        using u by (simp add: next_state_def)
    next
      assume "\<exists>j\<in>S. batch_of j st1"
      then obtain j f where j: "j \<in> S" "frame_of j = Some f" "holds f st1"
        by (auto simp: batch_of_def split: option.splits)
      then have "s = Drawn st1 f"
        using s by (simp add: render_holds)
      moreover have "batch_of j st1"
        using j by (simp add: batch_of_def)
      ultimately show ?thesis
        using j by (auto simp: next_state_def)
    qed
  qed
qed

lemma run_consistent:
  assumes "unset st \<or> (\<exists>j\<in>S. batch_of j st)"
  shows "\<forall>(calls, s)\<in>set (draw_dashboard ins st).
           s = Break \<or> (\<exists>p e. s = Raised p e) \<or> (\<exists>st'. s = Continue st' \<and> unset st') \<or>
           (\<exists>st' f. s = Drawn st' f \<and> (\<exists>j\<in>S \<union> set ins. frame_of j = Some f \<and> holds f st'))"
  using assms
proof (induction ins arbitrary: st S)
  case Nil
  then show ?case
    by simp
next
  case (Cons i ins)
  obtain calls s where t: "tick i st = (calls, s)"
    by (cases "tick i st") auto
  note step = tick_step [OF Cons.prems t]
  have head: "s = Break \<or> (\<exists>p e. s = Raised p e) \<or> (\<exists>st'. s = Continue st' \<and> unset st') \<or>
          (\<exists>st' f. s = Drawn st' f \<and>
             (\<exists>j\<in>S \<union> set (i # ins). frame_of j = Some f \<and> holds f st'))"
    using step by auto
  show ?case
  proof (cases "next_state s")
    case None
    then show ?thesis
      using t head by simp
  next
    case (Some st')
    then have "unset st' \<or> (\<exists>j\<in>insert i S. batch_of j st')"
      using step by blast
    from Cons.IH [OF this]
    have "\<forall>(calls, s)\<in>set (draw_dashboard ins st').
           s = Break \<or> (\<exists>p e. s = Raised p e) \<or> (\<exists>st'. s = Continue st' \<and> unset st') \<or>
           (\<exists>st' f. s = Drawn st' f \<and>
              (\<exists>j\<in>S \<union> set (i # ins). frame_of j = Some f \<and> holds f st'))"
      by simp
    then show ?thesis
      using t head Some by simp
  qed
qed

text \<open>The example passes, run.\<close>

lemma example_values:
  "getch early_refresh_key_pass = 114" "time_time early_refresh_key_pass = 5"
  "getch first_pass = - 1" "time_time first_pass = 1700000000"
  "getch idle_pass = - 1" "time_time idle_pass = 1700000003"
  "getch later_pass = - 1" "time_time later_pass = 1700000011"
  "getch quit_pass = 113" "time_time quit_pass = 1700000011"
  "getch failing_pass = - 1" "time_time failing_pass = 1700000022"
  by (simp_all add: early_refresh_key_pass_def first_pass_def idle_pass_def later_pass_def
      quit_pass_def failing_pass_def)

lemma example_frames:
  "frame_of first_pass = Some first_frame"
  "frame_of later_pass = Some later_frame"
  "frame_of failing_pass = None"
  by (simp_all add: frame_of_def first_pass_def later_pass_def failing_pass_def
      later_frame_def)

lemma example_states:
  "last_update initial = 0"
  "last_update (committed first_pass initial) = 1700000000"
  "last_update (committed later_pass st) = 1700000011"
  "holds first_frame (committed first_pass st)"
  "holds later_frame (committed later_pass st)"
  by (simp_all add: initial_def committed_def example_frames example_values holds_def)

lemma example_run:
  "draw_dashboard example_passes initial =
     [([], Continue initial),
      (refresh_calls first_pass, Drawn (committed first_pass initial) first_frame),
      ([], Drawn (committed first_pass initial) first_frame),
      (refresh_calls later_pass,
       Drawn (committed later_pass (committed first_pass initial)) later_frame),
      ([], Break)]"
proof -
  have i: "render initial = Continue initial"
    by (simp add: render_unset unset_def initial_def)
  have 0: "initial\<lparr>last_update := 0\<rparr> = initial"
    by (simp add: initial_def)
  have 1: "tick early_refresh_key_pass initial = ([], Continue initial)"
    by (simp add: tick_keep example_values update_interval_def i 0)
  have 2: "tick first_pass initial =
      (refresh_calls first_pass, Drawn (committed first_pass initial) first_frame)"
    by (simp add: tick_refresh example_values example_frames example_states
        update_interval_def)
  have 3: "tick idle_pass (committed first_pass initial) =
      ([], Drawn (committed first_pass initial) first_frame)"
    by (simp add: tick_keep example_values example_states update_interval_def render_holds)
  have 4: "tick later_pass (committed first_pass initial) =
      (refresh_calls later_pass,
       Drawn (committed later_pass (committed first_pass initial)) later_frame)"
    by (simp add: tick_refresh example_values example_frames example_states
        update_interval_def)
  have 5: "tick quit_pass (committed later_pass (committed first_pass initial)) = ([], Break)"
    by (simp add: tick_quit example_values)
  show ?thesis
    by (simp add: example_passes_def 1 2 3 4 5 next_state_def)
qed

lemma failing_refresh:
  "refresh failing_pass st =
     (take 5 (refresh_calls failing_pass), Inl (GetMemoryInfo, ZeroDivisionError))"
  by (simp add: refresh_def failing_pass_def later_pass_def first_pass_def)

lemma failing_run:
  "draw_dashboard failing_passes initial =
     [(refresh_calls first_pass, Drawn (committed first_pass initial) first_frame),
      (take 5 (refresh_calls failing_pass), Raised GetMemoryInfo ZeroDivisionError)]"
proof -
  have 1: "tick first_pass initial =
      (refresh_calls first_pass, Drawn (committed first_pass initial) first_frame)"
    by (simp add: tick_refresh example_values example_frames example_states
        update_interval_def)
  have 2: "tick failing_pass (committed first_pass initial) =
      (take 5 (refresh_calls failing_pass), Raised GetMemoryInfo ZeroDivisionError)"
    by (simp add: tick_def Let_def example_values example_states update_interval_def
        failing_refresh)
  show ?thesis
    by (simp add: failing_passes_def 1 2 next_state_def)
qed

lemma sum_took:
  "snd (last (refresh_calls i)) = time_time i + sum_list (map (took i) all_providers)"
  by (simp add: refresh_calls_def all_providers_def Let_def)

lemma took_positive:
  assumes "\<forall>p. 0 \<le> took i p" "\<exists>p. 0 < took i p"
  shows "0 < sum_list (map (took i) all_providers)"
proof -
  obtain p where p: "0 < took i p"
    using assms(2) by blast
  have n: "0 \<le> took i ParseIoregBattery" "0 \<le> took i ParsePmset" "0 \<le> took i ParseThermal"
    "0 \<le> took i GetCpuUsage" "0 \<le> took i GetMemoryInfo" "0 \<le> took i GetDiskInfo"
    using assms(1) by simp_all
  show ?thesis
    using p n by (cases p) (simp_all add: all_providers_def)
qed

lemma took_nonneg:
  assumes "\<forall>p. 0 \<le> took i p"
  shows "0 \<le> sum_list (map (took i) all_providers)"
  using assms by (simp add: all_providers_def)

lemma last_update_committed:
  "frame_of i = Some f \<Longrightarrow> last_update (committed i st) = time_time i"
  by (simp add: committed_def)


text \<open>
  C1. For every sequence of passes from the initial state, every pass ends in one of
  these ways. It breaks. A provider raises: the loop ends there, and nothing is drawn
  from the samples assigned so far. It skips the drawing: then the state is the unset
  one, five samples \<open>None\<close> and \<open>cpu\<close> at its initial 0. It draws a frame: then the six
  samples of the frame, and of the state, are the six that one and the same pass
  collected. No drawing meets a sample that is \<open>None\<close>.
\<close>

theorem render_sees_one_batch:
  "\<forall>(calls, s)\<in>set (draw_dashboard ins initial).
     s = Break \<or> (\<exists>p e. s = Raised p e) \<or> (\<exists>st. s = Continue st \<and> unset st) \<or>
     (\<exists>st f. s = Drawn st f \<and> (\<exists>i\<in>set ins. frame_of i = Some f \<and> holds f st))"
proof -
  have "unset initial \<or> (\<exists>j\<in>{}. batch_of j initial)"
    by (simp add: unset_def initial_def)
  from run_consistent [OF this, of ins] show ?thesis
    by simp
qed

theorem render_sees_one_batch_witness:
  "map snd (draw_dashboard example_passes initial) =
     [Continue initial,
      Drawn (committed first_pass initial) first_frame,
      Drawn (committed first_pass initial) first_frame,
      Drawn (committed later_pass (committed first_pass initial)) later_frame,
      Break]
   \<and> map snd (draw_dashboard failing_passes initial) =
       [Drawn (committed first_pass initial) first_frame,
        Raised GetMemoryInfo ZeroDivisionError]
   \<and> (\<exists>i\<in>set example_passes.
         frame_of i = Some later_frame \<and>
         holds later_frame (committed later_pass (committed first_pass initial)))
   \<and> (\<exists>i\<in>set failing_passes.
         frame_of i = Some first_frame \<and> holds first_frame (committed first_pass initial))"
proof -
  have a: "(refresh_calls later_pass,
            Drawn (committed later_pass (committed first_pass initial)) later_frame)
           \<in> set (draw_dashboard example_passes initial)"
    by (simp add: example_run)
  have b: "(refresh_calls first_pass, Drawn (committed first_pass initial) first_frame)
           \<in> set (draw_dashboard failing_passes initial)"
    by (simp add: failing_run)
  have "\<exists>i\<in>set example_passes.
         frame_of i = Some later_frame \<and>
         holds later_frame (committed later_pass (committed first_pass initial))"
    using render_sees_one_batch [of example_passes] a by fastforce
  moreover have "\<exists>i\<in>set failing_passes.
         frame_of i = Some first_frame \<and> holds first_frame (committed first_pass initial)"
    using render_sees_one_batch [of failing_passes] b by fastforce
  ultimately show ?thesis
    by (simp add: example_run failing_run)
qed


text \<open>
  Against C8 as stated (\<open>last_update\<close> is the time after the six providers completed):
  in the first pass of the example each call takes half a second, the last one returns at
  1700000003, and \<open>last_update\<close> is 1700000000.
\<close>

theorem last_update_before_commit:
  "getch first_pass \<noteq> 113 \<and> getch first_pass \<noteq> 81
   \<and> update_interval \<le> time_time first_pass - last_update initial
   \<and> tick first_pass initial =
       (refresh_calls first_pass, Drawn (committed first_pass initial) first_frame)
   \<and> map fst (refresh_calls first_pass) = all_providers
   \<and> snd (last (refresh_calls first_pass)) = 1700000003
   \<and> last_update (committed first_pass initial) = 1700000000"
proof -
  have t: "tick first_pass initial =
      (refresh_calls first_pass, Drawn (committed first_pass initial) first_frame)"
    by (simp add: tick_refresh example_values example_frames example_states
        update_interval_def)
  have k: "took first_pass = (\<lambda>p. 1 / 2)"
    by (simp add: first_pass_def)
  have c: "snd (last (refresh_calls first_pass)) = 1700000003"
    by (simp add: sum_took all_providers_def k example_values)
  show ?thesis
    using t c
    by (simp add: example_values example_states update_interval_def map_fst_refresh_calls)
qed

text \<open>
  C8, amended. On every pass that refreshes, the providers are called in the one order
  \<open>all_providers\<close>. When the six calls return, the state then holds their six results,
  the frame is drawn from them, and \<open>last_update\<close> is the time read at the top of the
  pass, before the first provider was called: the last call returns at that time plus the
  time the six calls took, so \<open>last_update\<close> is not later than the commit, and earlier
  when a call takes time. When a call raises, the calls made are those up to it, and the
  loop ends with its exception.
\<close>

theorem refresh_commit:
  assumes "getch i \<noteq> 113" "getch i \<noteq> 81"
    and "update_interval \<le>
           time_time i - (if getch i = 114 \<or> getch i = 82 then 0 else last_update st)"
  shows "(frame_of i = Some f \<longrightarrow>
            tick i st = (refresh_calls i, Drawn (committed i st) f) \<and>
            holds f (committed i st) \<and>
            last_update (committed i st) = time_time i)
     \<and> map fst (refresh_calls i) = all_providers
     \<and> snd (last (refresh_calls i)) = time_time i + sum_list (map (took i) all_providers)
     \<and> ((\<forall>p. 0 \<le> took i p) \<longrightarrow> time_time i \<le> snd (last (refresh_calls i)))
     \<and> ((\<forall>p. 0 \<le> took i p) \<and> (\<exists>p. 0 < took i p) \<longrightarrow>
          time_time i < snd (last (refresh_calls i)))
     \<and> (frame_of i = None \<longrightarrow>
          (\<exists>n p e. tick i st = (take n (refresh_calls i), Raised p e) \<and>
             0 < n \<and> n \<le> 6 \<and> p = all_providers ! (n - 1)))"
proof -
  have 1: "tick i st = (refresh_calls i, Drawn (committed i st) f) \<and>
            holds f (committed i st) \<and>
            last_update (committed i st) = time_time i"
    if "frame_of i = Some f"
    using tick_refresh [OF assms that] committed_holds [OF that]
      last_update_committed [OF that] by simp
  have 2: "time_time i \<le> snd (last (refresh_calls i))"
    if "\<forall>p. 0 \<le> took i p"
    using took_nonneg [OF that] sum_took [of i] by simp
  have 3: "time_time i < snd (last (refresh_calls i))"
    if "(\<forall>p. 0 \<le> took i p) \<and> (\<exists>p. 0 < took i p)"
    using took_positive [of i] that sum_took [of i] by simp
  have 4: "\<exists>n p e. tick i st = (take n (refresh_calls i), Raised p e) \<and>
             0 < n \<and> n \<le> 6 \<and> p = all_providers ! (n - 1)"
    if "frame_of i = None"
    using tick_raise [OF assms that] .
  from 1 2 3 4 map_fst_refresh_calls [of i] sum_took [of i] show ?thesis
    by blast
qed

theorem refresh_commit_witness:
  "getch later_pass \<noteq> 113 \<and> getch later_pass \<noteq> 81
   \<and> update_interval \<le> time_time later_pass - last_update (committed first_pass initial)
   \<and> frame_of later_pass = Some later_frame
   \<and> tick later_pass (committed first_pass initial) =
       (refresh_calls later_pass,
        Drawn (committed later_pass (committed first_pass initial)) later_frame)
   \<and> last_update (committed later_pass (committed first_pass initial)) = time_time later_pass
   \<and> time_time later_pass < snd (last (refresh_calls later_pass))
   \<and> frame_of failing_pass = None
   \<and> tick failing_pass (committed first_pass initial) =
       (take 5 (refresh_calls failing_pass), Raised GetMemoryInfo ZeroDivisionError)"
proof -
  have a: "getch later_pass \<noteq> 113" "getch later_pass \<noteq> 81"
    by (simp_all add: example_values)
  have b: "update_interval \<le> time_time later_pass -
      (if getch later_pass = 114 \<or> getch later_pass = 82 then 0
       else last_update (committed first_pass initial))"
    by (simp add: example_values example_states update_interval_def)
  have c: "update_interval \<le> time_time later_pass - last_update (committed first_pass initial)"
    by (simp add: example_values example_states update_interval_def)
  have k: "(\<forall>p. 0 \<le> took later_pass p) \<and> (\<exists>p. 0 < took later_pass p)"
    by (simp add: later_pass_def first_pass_def)
  have f: "frame_of later_pass = Some later_frame" "frame_of failing_pass = None"
    by (simp_all add: example_frames)
  have r: "tick failing_pass (committed first_pass initial) =
       (take 5 (refresh_calls failing_pass), Raised GetMemoryInfo ZeroDivisionError)"
    by (simp add: tick_def Let_def example_values example_states update_interval_def
        failing_refresh)
  show ?thesis
    using refresh_commit [OF a b, of later_frame] a c k f r by blast
qed

end
